theory Spec2Isabelle
  imports Main
begin

section \<open>JavaScript values of lib/networks.js\<close>

text \<open>
  A JavaScript number is a double. The model has the numbers that are integers which a
  double holds exactly and which print with all their decimal digits: the safe integers,
  up to \<open>2\<^sup>5\<^sup>3 - 1\<close> in absolute value. The prefixes, magics and ports of the JSDoc are
  among them; fractions, larger numbers, infinities and NaN are outside the model.
  \<open>number n\<close> is the number of the integer \<open>n\<close> of that range, \<open>int_of\<close> its integer.
\<close>

typedef safe_integer = "{n :: int. \<bar>n\<bar> \<le> 9007199254740991}"
  morphisms int_of number
  by (rule exI [of _ 0]) simp

text \<open>
  The values that flow through the registry: the numbers above, strings as character
  lists. A network object
  is referred to by its address in the heap, so that \<open>===\<close> on two networks is equality
  of addresses. \<open>Buffer\<close> and \<open>Array\<close> are the objects stored in \<open>networkMagic\<close> and
  \<open>dnsSeeds\<close>; \<open>Builtin k\<close> is the member \<open>k\<close> that every object inherits from
  \<open>Object.prototype\<close> or \<open>Network.prototype\<close> (a function or the prototype object).
\<close>

datatype jsval =
    Undefined
  | Bool bool
  | Num safe_integer
  | Str string
  | Ref nat
  | Buffer "int list"
  | Array "string list"
  | Builtin string

text \<open>The argument of \<open>get\<close>: \<open>@param {string|number|Network} arg\<close>, or nothing.\<close>

datatype arg = AUndefined | ANum safe_integer | AStr string | ANetwork nat

fun val_of_arg :: "arg \<Rightarrow> jsval" where
  "val_of_arg AUndefined = Undefined"
| "val_of_arg (ANum n) = Num n"
| "val_of_arg (AStr s) = Str s"
| "val_of_arg (ANetwork n) = Ref n"

text \<open>The second argument of \<open>get\<close>: \<open>@param {string|Array} keys\<close>, or nothing.\<close>

datatype keys = NoKeys | KeyName string | KeyList "string list"

text \<open>\<open>if (v)\<close>: the falsy values are undefined, false, 0 and the empty string.\<close>

fun truthy :: "jsval \<Rightarrow> bool" where
  "truthy Undefined = False"
| "truthy (Bool b) = b"
| "truthy (Num n) = (int_of n \<noteq> 0)"
| "truthy (Str s) = (s \<noteq> [])"
| "truthy _ = True"

text \<open>\<open>_.isObject\<close>: objects, arrays, buffers and functions.\<close>

fun isObject :: "jsval \<Rightarrow> bool" where
  "isObject (Ref n) = True"
| "isObject (Buffer b) = True"
| "isObject (Array a) = True"
| "isObject (Builtin k) = True"
| "isObject _ = False"

subsection \<open>Property keys: the string form of a value\<close>

definition digit_chars :: string where
  "digit_chars = ''0123456789''"

function string_of_nat :: "nat \<Rightarrow> string" where
  "string_of_nat n =
     (if n < 10 then [digit_chars ! n]
      else string_of_nat (n div 10) @ [digit_chars ! (n mod 10)])"
  by pat_completeness auto
termination
  by (relation "measure id") auto

declare string_of_nat.simps [simp del]

definition string_of_int :: "int \<Rightarrow> string" where
  "string_of_int i = (if i < 0 then CHR ''-'' # string_of_nat (nat (- i)) else string_of_nat (nat i))"

text \<open>
  \<open>String(v)\<close> for a primitive value, as a property key is formed from it. A number
  of the model, a safe integer, gives its decimal digits with a sign when negative.
\<close>

fun to_key :: "jsval \<Rightarrow> string" where
  "to_key Undefined = ''undefined''"
| "to_key (Bool b) = (if b then ''true'' else ''false'')"
| "to_key (Num n) = string_of_int (int_of n)"
| "to_key (Str s) = s"
| "to_key _ = ''[object]''"

section \<open>Objects and the heap\<close>

text \<open>
  An own property is a data property that \<open>defineImmutable\<close> made read-only
  (\<open>Frozen\<close>), a data property that a plain assignment created (\<open>Data\<close>), or, for
  the three properties that the module defines on testnet with \<open>Object.defineProperty\<close>,
  a getter choosing between the value of the TESTNET bundle and that of the REGTEST bundle.
\<close>

datatype jsprop = Frozen jsval | Data jsval | Getter jsval jsval

type_synonym jsobj = "(string \<times> jsprop) list"

text \<open>The members of \<open>Object.prototype\<close>, which every plain object inherits.\<close>

definition object_prototype_names :: "string list" where
  "object_prototype_names =
     [''constructor'', ''__defineGetter__'', ''__defineSetter__'', ''hasOwnProperty'',
      ''__lookupGetter__'', ''__lookupSetter__'', ''isPrototypeOf'',
      ''propertyIsEnumerable'', ''toString'', ''valueOf'', ''__proto__'',
      ''toLocaleString'']"

definition object_prototype :: "string \<Rightarrow> jsval" where
  "object_prototype k = (if k \<in> set object_prototype_names then Builtin k else Undefined)"

text \<open>
  Reading \<open>o[k]\<close> on a network object: the own property, a getter run with the object's
  own \<open>regtestEnabled\<close>, else what \<open>Network.prototype\<close> (which only redefines
  \<open>toString\<close>) and \<open>Object.prototype\<close> give.
\<close>

definition own_data :: "jsobj \<Rightarrow> string \<Rightarrow> jsval" where
  "own_data ob k =
     (case map_of ob k of Some (Data v) \<Rightarrow> v | Some (Frozen v) \<Rightarrow> v | _ \<Rightarrow> Undefined)"

definition read_obj :: "jsobj \<Rightarrow> string \<Rightarrow> jsval" where
  "read_obj ob k =
     (case map_of ob k of
        Some (Frozen v) \<Rightarrow> v
      | Some (Data v) \<Rightarrow> v
      | Some (Getter t g) \<Rightarrow> if truthy (own_data ob ''regtestEnabled'') then g else t
      | None \<Rightarrow> object_prototype k)"

text \<open>
  Modelled from the spec: \<open>JSUtil.defineImmutable\<close> (lib/util/js.js), which the repository
  keeps outside this file. It defines each given value as a frozen, enumerable own property
  of the target, in the order given.
\<close>

definition defineImmutable :: "jsobj \<Rightarrow> (string \<times> jsval) list \<Rightarrow> jsobj" where
  "defineImmutable target vs = target @ map (\<lambda>(k, v). (k, Frozen v)) vs"

text \<open>
  Modelled from the spec: \<open>BufferUtil.integerAsBuffer\<close> (lib/util/buffer.js), which the
  repository keeps outside this file. It gives the 4-byte value of the magic number, most
  significant byte first, as a buffer object.
\<close>

definition integerAsBuffer :: "safe_integer \<Rightarrow> jsval" where
  "integerAsBuffer i =
     Buffer [(int_of i div 16777216) mod 256, (int_of i div 65536) mod 256,
             (int_of i div 256) mod 256, int_of i mod 256]"

section \<open>The registry\<close>

text \<open>
  The module's state: the heap of Network objects ever constructed, the address the next
  one gets, the array \<open>networks\<close>, and the object \<open>networkMaps\<close> with its own properties
  and its prototype when an assignment to the key \<open>__proto__\<close> has replaced
  \<open>Object.prototype\<close> by a network.
\<close>

record registry =
  heap :: "nat \<Rightarrow> jsobj"
  next_ref :: nat
  networks :: "nat list"
  networkMaps :: "string \<Rightarrow> jsval option"
  maps_proto :: "nat option"

definition empty_registry :: registry where
  "empty_registry =
     \<lparr>heap = (\<lambda>_. []), next_ref = 0, networks = [], networkMaps = (\<lambda>_. None),
      maps_proto = None\<rparr>"

text \<open>\<open>Network.prototype.toString\<close> returns \<open>this.name\<close>; a key is made from it.\<close>

definition key_of_arg :: "registry \<Rightarrow> arg \<Rightarrow> string" where
  "key_of_arg r a =
     (case a of ANetwork n \<Rightarrow> to_key (read_obj (heap r n) ''name'')
      | _ \<Rightarrow> to_key (val_of_arg a))"

text \<open>
  \<open>networkMaps[k]\<close>, read: an own property, else the prototype chain, which is
  \<open>Object.prototype\<close> or, once \<open>__proto__\<close> has been assigned, the network put there
  followed by its own chain. Only a network that \<open>addNetwork\<close> has just built is ever
  put there, so the prototype has no getter and the reading is that of its own values.
\<close>

definition maps_read :: "registry \<Rightarrow> string \<Rightarrow> jsval" where
  "maps_read r k =
     (case networkMaps r k of
        Some v \<Rightarrow> v
      | None \<Rightarrow>
          (case maps_proto r of
             None \<Rightarrow> object_prototype k
           | Some p \<Rightarrow> if k = ''__proto__'' then Ref p else read_obj (heap r p) k))"

text \<open>
  \<open>networkMaps[k] = v\<close> in the strict mode of the file. An own property of that name
  gets the value. Otherwise the prototype chain decides: a read-only property or a getter
  without setter of the network that is the prototype makes the assignment throw a
  TypeError; the key \<open>__proto__\<close>, found on \<open>Object.prototype\<close> with its setter, creates
  no own property and sets the prototype when \<open>v\<close> is an object (the module only ever
  stores networks) and does nothing when \<open>v\<close> is a primitive; in every other case,
  with nothing inherited or an assignable property inherited, a new own property is made.
\<close>

datatype error = TypeError

definition own_write :: "string \<Rightarrow> jsval \<Rightarrow> registry \<Rightarrow> registry" where
  "own_write k v r = r\<lparr>networkMaps := (networkMaps r)(k \<mapsto> v)\<rparr>"

definition set_prototype :: "jsval \<Rightarrow> registry \<Rightarrow> registry" where
  "set_prototype v r = (case v of Ref n \<Rightarrow> r\<lparr>maps_proto := Some n\<rparr> | _ \<Rightarrow> r)"

definition default_write :: "string \<Rightarrow> jsval \<Rightarrow> registry \<Rightarrow> registry" where
  "default_write k v r = (if k = ''__proto__'' then set_prototype v r else own_write k v r)"

definition maps_write :: "string \<Rightarrow> jsval \<Rightarrow> registry \<Rightarrow> error + registry" where
  "maps_write k v r =
     (case networkMaps r k of
        Some u \<Rightarrow> Inr (own_write k v r)
      | None \<Rightarrow>
          (case maps_proto r of
             None \<Rightarrow> Inr (default_write k v r)
           | Some p \<Rightarrow>
               (case map_of (heap r p) k of
                  Some (Frozen u) \<Rightarrow> Inl TypeError
                | Some (Getter t g) \<Rightarrow> Inl TypeError
                | Some (Data u) \<Rightarrow> Inr (own_write k v r)
                | None \<Rightarrow> Inr (default_write k v r))))"

subsection \<open>get\<close>

definition containsArg :: "registry \<Rightarrow> arg \<Rightarrow> nat \<Rightarrow> string \<Rightarrow> bool" where
  "containsArg r a n key = (read_obj (heap r n) key = val_of_arg a)"

definition keyed_scan :: "registry \<Rightarrow> arg \<Rightarrow> string list \<Rightarrow> jsval" where
  "keyed_scan r a ks =
     (case find (\<lambda>n. list_ex (containsArg r a n) ks) (networks r) of
        Some n \<Rightarrow> Ref n
      | None \<Rightarrow> Undefined)"

definition is_registered :: "registry \<Rightarrow> arg \<Rightarrow> bool" where
  "is_registered r a = (case a of ANetwork n \<Rightarrow> n \<in> set (networks r) | _ \<Rightarrow> False)"

definition get :: "registry \<Rightarrow> arg \<Rightarrow> keys \<Rightarrow> jsval" where
  "get r a ks =
     (if is_registered r a then val_of_arg a
      else case ks of
          KeyList l \<Rightarrow> keyed_scan r a l
        | KeyName k \<Rightarrow> if k \<noteq> [] then keyed_scan r a [k] else maps_read r (key_of_arg r a)
        | NoKeys \<Rightarrow> maps_read r (key_of_arg r a))"

subsection \<open>add\<close>

text \<open>
  The specification record \<open>data\<close>, typed as the JSDoc of \<open>addNetwork\<close> types it;
  \<open>None\<close> is a field that the caller left out, which reads as undefined (the field
  \<open>alias\<close> is \<open>alias_f\<close> here, \<open>alias\<close> being a word of the proof language).
\<close>

record network_spec =
  name :: "string option"
  alias_f :: "string option"
  pubkeyhash :: "safe_integer option"
  privatekey :: "safe_integer option"
  scripthash :: "safe_integer option"
  xpubkey :: "safe_integer option"
  xprivkey :: "safe_integer option"
  zaddr :: "safe_integer option"
  zkey :: "safe_integer option"
  networkMagic :: "safe_integer option"
  port :: "safe_integer option"
  dnsSeeds :: "string list option"

definition of_str :: "string option \<Rightarrow> jsval" where
  "of_str x = (case x of None \<Rightarrow> Undefined | Some s \<Rightarrow> Str s)"

definition of_num :: "safe_integer option \<Rightarrow> jsval" where
  "of_num x = (case x of None \<Rightarrow> Undefined | Some n \<Rightarrow> Num n)"

definition of_arr :: "string list option \<Rightarrow> jsval" where
  "of_arr x = (case x of None \<Rightarrow> Undefined | Some a \<Rightarrow> Array a)"

text \<open>The body of the \<open>_.each\<close> callback, which the assignment can make throw.\<close>

definition index_value :: "jsval \<Rightarrow> jsval \<Rightarrow> registry \<Rightarrow> error + registry" where
  "index_value network v r =
     (if v \<noteq> Undefined \<and> \<not> isObject v then maps_write (to_key v) network r else Inr r)"

text \<open>
  \<open>_.each\<close> over the values of the own properties. An exception ends the loop and
  leaves the registry as the earlier iterations made it: the result is the exception, if
  any, and that registry.
\<close>

fun index_values :: "jsval \<Rightarrow> jsval list \<Rightarrow> registry \<Rightarrow> error option \<times> registry" where
  "index_values network [] r = (None, r)"
| "index_values network (v # vs) r =
     (case index_value network v r of
        Inl e \<Rightarrow> (Some e, r)
      | Inr r' \<Rightarrow> index_values network vs r')"

text \<open>The object that \<open>addNetwork\<close> builds before it indexes it.\<close>

definition build_network :: "network_spec \<Rightarrow> jsobj" where
  "build_network data =
     (let n0 = defineImmutable []
            [(''name'', of_str (name data)),
             (''alias'', of_str (alias_f data)),
             (''pubkeyhash'', of_num (pubkeyhash data)),
             (''privatekey'', of_num (privatekey data)),
             (''scripthash'', of_num (scripthash data)),
             (''xpubkey'', of_num (xpubkey data)),
             (''xprivkey'', of_num (xprivkey data)),
             (''zaddr'', of_num (zaddr data)),
             (''zkey'', of_num (zkey data))];
          n1 = (case networkMagic data of
                  Some m \<Rightarrow>
                    if truthy (Num m)
                    then defineImmutable n0 [(''networkMagic'', integerAsBuffer m)] else n0
                | None \<Rightarrow> n0);
          n2 = (if truthy (of_num (port data))
                then defineImmutable n1 [(''port'', of_num (port data))] else n1);
          n3 = (if truthy (of_arr (dnsSeeds data))
                then defineImmutable n2 [(''dnsSeeds'', of_arr (dnsSeeds data))] else n2)
      in n3)"

text \<open>
  \<open>addNetwork\<close> gives its outcome and the registry after it. The object is allocated
  and the values of its own enumerable properties are indexed in order. When that loop
  ends normally the network is pushed onto \<open>networks\<close> and its address returned; when an
  assignment throws, the exception leaves \<open>addNetwork\<close> before the push, with the index
  entries written so far in place.
\<close>

definition addNetwork :: "network_spec \<Rightarrow> registry \<Rightarrow> (error + nat) \<times> registry" where
  "addNetwork data r =
     (let network = next_ref r;
          ob = build_network data;
          r1 = r\<lparr>heap := (heap r)(network := ob), next_ref := Suc network\<rparr>
      in case index_values (Ref network) (map (read_obj ob) (map fst ob)) r1 of
           (Some e, r2) \<Rightarrow> (Inl e, r2)
         | (None, r2) \<Rightarrow> (Inr network, r2\<lparr>networks := networks r2 @ [network]\<rparr>))"

subsection \<open>remove\<close>

text \<open>The first loop of \<open>removeNetwork\<close>, with its index going on after a splice.\<close>

function splice_loop :: "nat \<Rightarrow> nat list \<Rightarrow> nat \<Rightarrow> nat list" where
  "splice_loop i xs n =
     (if i < length xs
      then (if xs ! i = n then splice_loop (i + 1) (take i xs @ drop (i + 1) xs) n
            else splice_loop (i + 1) xs n)
      else xs)"
  by pat_completeness auto
termination
  by (relation "measure (\<lambda>(i, xs, n). length xs - i)") auto

declare splice_loop.simps [simp del]

text \<open>
  The second loop deletes every own key of \<open>networkMaps\<close> whose value is the network;
  the keys inherited through the prototype are enumerated too, but their values are never
  deleted, since \<open>delete\<close> acts on own properties only.
\<close>

definition delete_entries :: "(string \<Rightarrow> jsval option) \<Rightarrow> nat \<Rightarrow> (string \<Rightarrow> jsval option)" where
  "delete_entries m n = (\<lambda>key. if m key = Some (Ref n) then None else m key)"

definition removeNetwork :: "nat \<Rightarrow> registry \<Rightarrow> registry" where
  "removeNetwork network r =
     r\<lparr>networks := splice_loop 0 (networks r) network,
       networkMaps := delete_entries (networkMaps r) network\<rparr>"

section \<open>The module's initialisation\<close>

definition livenet_spec :: network_spec where
  "livenet_spec =
     \<lparr>name = Some ''livenet'', alias_f = Some ''mainnet'', pubkeyhash = Some (number 0x1cb8),
      privatekey = Some (number 0x80), scripthash = Some (number 0x1cbd), xpubkey = Some (number 0x0488b21e),
      xprivkey = Some (number 0x0488ade4), zaddr = Some (number 0x169a), zkey = Some (number 0xab36),
      networkMagic = Some (number 0x24e92764), port = Some (number 8233),
      dnsSeeds = Some [''bzcseed.raptorpool.org'']\<rparr>"

definition registry1 :: registry where
  "registry1 = snd (addNetwork livenet_spec empty_registry)"

definition livenet :: jsval where
  "livenet = get registry1 (AStr ''livenet'') NoKeys"

definition testnet_spec :: network_spec where
  "testnet_spec =
     \<lparr>name = Some ''testnet'', alias_f = Some ''regtest'', pubkeyhash = Some (number 0x1d25),
      privatekey = Some (number 0xef), scripthash = Some (number 0x1cba), xpubkey = Some (number 0x043587cf),
      xprivkey = Some (number 0x04358394), zaddr = Some (number 0x16b6), zkey = Some (number 0xac08),
      networkMagic = None, port = None, dnsSeeds = None\<rparr>"

definition registry2 :: registry where
  "registry2 = snd (addNetwork testnet_spec registry1)"

definition testnet :: jsval where
  "testnet = get registry2 (AStr ''testnet'') NoKeys"

text \<open>The two bundles, as objects with their keys in the order written.\<close>

definition TESTNET :: "(string \<times> jsval) list" where
  "TESTNET =
     [(''PORT'', Num (number 18233)),
      (''NETWORK_MAGIC'', integerAsBuffer (number 0xfa1af9bf)),
      (''DNS_SEEDS'', Array [''dnsseedtestnet.zelcash.online''])]"

definition REGTEST :: "(string \<times> jsval) list" where
  "REGTEST =
     [(''PORT'', Num (number 18444)),
      (''NETWORK_MAGIC'', integerAsBuffer (number 0xaae83f5f)),
      (''DNS_SEEDS'', Array [])]"

definition member :: "(string \<times> jsval) list \<Rightarrow> string \<Rightarrow> jsval" where
  "member b key = (case map_of b key of Some v \<Rightarrow> v | None \<Rightarrow> Undefined)"

text \<open>
  \<open>for (var key in B) if (!_.isObject(B[key])) networkMaps[B[key]] = target\<close>, over the
  keys of \<open>B\<close>; an exception ends it, and with it the loading of the module.
\<close>

fun index_bundle ::
  "(string \<times> jsval) list \<Rightarrow> string list \<Rightarrow> jsval \<Rightarrow> registry \<Rightarrow> error + registry" where
  "index_bundle b [] target r = Inr r"
| "index_bundle b (key # ks) target r =
     (if \<not> isObject (member b key)
      then (case maps_write (to_key (member b key)) target r of
              Inl e \<Rightarrow> Inl e
            | Inr r' \<Rightarrow> index_bundle b ks target r')
      else index_bundle b ks target r)"

text \<open>
  \<open>Object.defineProperty(target, k, {get: ...})\<close> with a getter that returns \<open>g\<close> when
  \<open>this.regtestEnabled\<close> holds and \<open>t\<close> otherwise. The target of the module is the
  testnet object, which has no property of these names yet; on anything that is not an
  object JavaScript would throw, which the module never meets.
\<close>

definition defineGetter :: "jsval \<Rightarrow> string \<Rightarrow> jsval \<Rightarrow> jsval \<Rightarrow> registry \<Rightarrow> registry" where
  "defineGetter target k t g r =
     (case target of
        Ref n \<Rightarrow> r\<lparr>heap := (heap r)(n := heap r n @ [(k, Getter t g)])\<rparr>
      | _ \<Rightarrow> r)"

definition define_getters :: "registry \<Rightarrow> registry" where
  "define_getters r4 =
     (let r5 = defineGetter testnet ''port'' (member TESTNET ''PORT'') (member REGTEST ''PORT'') r4;
          r6 = defineGetter testnet ''networkMagic''
                 (member TESTNET ''NETWORK_MAGIC'') (member REGTEST ''NETWORK_MAGIC'') r5;
          r7 = defineGetter testnet ''dnsSeeds''
                 (member TESTNET ''DNS_SEEDS'') (member REGTEST ''DNS_SEEDS'') r6
      in r7)"

text \<open>
  The statements of the module in their order. An exception in any of them would end the
  loading, and no caller would see a registry.
\<close>

definition module_load :: "error + registry" where
  "module_load =
     (case fst (addNetwork livenet_spec empty_registry) of
        Inl e \<Rightarrow> Inl e
      | Inr n0 \<Rightarrow>
     (case fst (addNetwork testnet_spec registry1) of
        Inl e \<Rightarrow> Inl e
      | Inr n1 \<Rightarrow>
     (case index_bundle TESTNET (map fst TESTNET) testnet registry2 of
        Inl e \<Rightarrow> Inl e
      | Inr r3 \<Rightarrow>
     (case index_bundle REGTEST (map fst REGTEST) testnet r3 of
        Inl e \<Rightarrow> Inl e
      | Inr r4 \<Rightarrow> Inr (define_getters r4)))))"

text \<open>
  The registry that the loaded module leaves to its callers. The module does load: the
  first case is the one that applies, as \<open>module_load_value\<close> shows below.
\<close>

definition init_registry :: registry where
  "init_registry = (case module_load of Inr r \<Rightarrow> r | Inl e \<Rightarrow> empty_registry)"

section \<open>The mode toggle\<close>

text \<open>
  \<open>o[k] = v\<close> on a network object: a new own property when the object has none of that
  name, the new value when the property is an assignable one, and no change when it is
  read-only or a getter without setter (the assignment is then ignored, or throws in
  strict mode).
\<close>

definition assign :: "jsobj \<Rightarrow> string \<Rightarrow> jsval \<Rightarrow> jsobj" where
  "assign ob k v =
     (case map_of ob k of
        None \<Rightarrow> ob @ [(k, Data v)]
      | Some (Data u) \<Rightarrow> map (\<lambda>(k', p). if k' = k then (k', Data v) else (k', p)) ob
      | Some p \<Rightarrow> ob)"

definition assign_property :: "jsval \<Rightarrow> string \<Rightarrow> jsval \<Rightarrow> registry \<Rightarrow> registry" where
  "assign_property target k v r =
     (case target of
        Ref n \<Rightarrow> r\<lparr>heap := (heap r)(n := assign (heap r n) k v)\<rparr>
      | _ \<Rightarrow> r)"

definition enableRegtest :: "registry \<Rightarrow> registry" where
  "enableRegtest r = assign_property testnet ''regtestEnabled'' (Bool True) r"

definition disableRegtest :: "registry \<Rightarrow> registry" where
  "disableRegtest r = assign_property testnet ''regtestEnabled'' (Bool False) r"

text \<open>Reading a property of a network through a reference, as \<open>testnet.port\<close> does.\<close>

definition read_property :: "registry \<Rightarrow> jsval \<Rightarrow> string \<Rightarrow> jsval" where
  "read_property r target k = (case target of Ref n \<Rightarrow> read_obj (heap r n) k | _ \<Rightarrow> Undefined)"

section \<open>Sequences of operations\<close>

text \<open>
  The five operations that the module exports, and a run of them from a registry. A step
  gives the registry after the operation, whether it returned or threw.
\<close>

datatype op = Add network_spec | Remove nat | Get arg keys | EnableRegtest | DisableRegtest

fun step :: "op \<Rightarrow> registry \<Rightarrow> registry" where
  "step (Add data) r = snd (addNetwork data r)"
| "step (Remove n) r = removeNetwork n r"
| "step (Get a ks) r = r"
| "step EnableRegtest r = enableRegtest r"
| "step DisableRegtest r = disableRegtest r"

definition run :: "op list \<Rightarrow> registry \<Rightarrow> registry" where
  "run ops r = fold step ops r"




section \<open>Invariants of the states that the operations reach\<close>

text \<open>The testnet object as the initialisation leaves it, before any toggle.\<close>

definition testnet_object :: jsobj where
  "testnet_object =
     [(''name'', Frozen (Str ''testnet'')),
      (''alias'', Frozen (Str ''regtest'')),
      (''pubkeyhash'', Frozen (Num (number 7461))),
      (''privatekey'', Frozen (Num (number 239))),
      (''scripthash'', Frozen (Num (number 7354))),
      (''xpubkey'', Frozen (Num (number 70617039))),
      (''xprivkey'', Frozen (Num (number 70615956))),
      (''zaddr'', Frozen (Num (number 5814))),
      (''zkey'', Frozen (Num (number 44040))),
      (''port'', Getter (Num (number 18233)) (Num (number 18444))),
      (''networkMagic'', Getter (Buffer [250, 26, 249, 191]) (Buffer [170, 232, 63, 95])),
      (''dnsSeeds'', Getter (Array [''dnsseedtestnet.zelcash.online'']) (Array []))]"

definition regtest_flag :: "bool option \<Rightarrow> jsobj" where
  "regtest_flag f = (case f of None \<Rightarrow> [] | Some b \<Rightarrow> [(''regtestEnabled'', Data (Bool b))])"

definition testnet_intact :: "registry \<Rightarrow> bool" where
  "testnet_intact r \<longleftrightarrow>
     Suc (Suc 0) \<le> next_ref r \<and> (\<exists>f. heap r (Suc 0) = testnet_object @ regtest_flag f)"

text \<open>Every network of the ordered list has been allocated.\<close>

definition allocated :: "registry \<Rightarrow> bool" where
  "allocated r \<longleftrightarrow> (\<forall>n \<in> set (networks r). n < next_ref r)"

text \<open>
  A value whose key is not \<open>__proto__\<close>, so that indexing it leaves the prototype of
  \<open>networkMaps\<close> alone, and an object all of whose properties are frozen values with a
  property.
\<close>

definition keeps_prototype :: "jsval \<Rightarrow> bool" where
  "keeps_prototype v \<longleftrightarrow> v = Undefined \<or> isObject v \<or> to_key v \<noteq> ''__proto__''"

definition all_frozen :: "(jsval \<Rightarrow> bool) \<Rightarrow> jsobj \<Rightarrow> bool" where
  "all_frozen P ob \<longleftrightarrow> (\<forall>(k, p) \<in> set ob. \<exists>v. p = Frozen v \<and> P v)"

text \<open>The specification of a custom network, for the examples.\<close>

definition custom_spec :: network_spec where
  "custom_spec =
     \<lparr>name = Some ''customnet'', alias_f = Some ''mynet'', pubkeyhash = Some (number 0x10),
      privatekey = Some (number 0x1e), scripthash = Some (number 0x0f),
      xpubkey = Some (number 0x02e8de8f), xprivkey = Some (number 0x02e8da54),
      zaddr = Some (number 0x16c0), zkey = Some (number 0xac0c),
      networkMagic = None, port = None, dnsSeeds = None\<rparr>"

section \<open>Basic facts\<close>

lemma int_of_number [simp]: "\<bar>n\<bar> \<le> 9007199254740991 \<Longrightarrow> int_of (number n) = n"
  by (simp add: number_inverse)

lemma number_eq_iff [simp]:
  "\<bar>a\<bar> \<le> 9007199254740991 \<Longrightarrow> \<bar>b\<bar> \<le> 9007199254740991 \<Longrightarrow> number a = number b \<longleftrightarrow> a = b"
  by (simp add: number_inject)

lemma own_write_fields [simp]:
  "heap (own_write k v r) = heap r"
  "next_ref (own_write k v r) = next_ref r"
  "networks (own_write k v r) = networks r"
  "maps_proto (own_write k v r) = maps_proto r"
  "networkMaps (own_write k v r) = (networkMaps r)(k \<mapsto> v)"
  by (simp_all add: own_write_def)

lemma set_prototype_fields [simp]:
  "heap (set_prototype v r) = heap r"
  "next_ref (set_prototype v r) = next_ref r"
  "networks (set_prototype v r) = networks r"
  "networkMaps (set_prototype v r) = networkMaps r"
  by (simp_all add: set_prototype_def split: jsval.splits)

lemma default_write_fields [simp]:
  "heap (default_write k v r) = heap r"
  "next_ref (default_write k v r) = next_ref r"
  "networks (default_write k v r) = networks r"
  by (simp_all add: default_write_def)

lemma maps_write_fields:
  assumes "maps_write k v r = Inr r'"
  shows "heap r' = heap r" and "next_ref r' = next_ref r" and "networks r' = networks r"
  using assms
  by (auto simp: maps_write_def split: option.splits jsprop.splits)

lemma index_value_fields:
  assumes "index_value n v r = Inr r'"
  shows "heap r' = heap r" and "next_ref r' = next_ref r" and "networks r' = networks r"
  using assms
  by (auto simp: index_value_def maps_write_fields split: if_splits)

lemma index_values_fields:
  "heap (snd (index_values n vs r)) = heap r \<and>
   next_ref (snd (index_values n vs r)) = next_ref r \<and>
   networks (snd (index_values n vs r)) = networks r"
proof (induction vs arbitrary: r)
  case Nil
  show ?case by simp
next
  case (Cons v vs)
  show ?case
  proof (cases "index_value n v r")
    case (Inl e)
    then show ?thesis by simp
  next
    case (Inr r')
    with Cons.IH [of r'] index_value_fields [OF Inr] show ?thesis
      by simp
  qed
qed

lemma addNetwork_cases:
  obtains (returns) r2 where
      "index_values (Ref (next_ref r))
         (map (read_obj (build_network data)) (map fst (build_network data)))
         (r\<lparr>heap := (heap r)(next_ref r := build_network data), next_ref := Suc (next_ref r)\<rparr>)
       = (None, r2)"
      and "addNetwork data r = (Inr (next_ref r), r2\<lparr>networks := networks r2 @ [next_ref r]\<rparr>)"
      and "heap r2 = (heap r)(next_ref r := build_network data)"
      and "next_ref r2 = Suc (next_ref r)" and "networks r2 = networks r"
  | (throws) e r2 where
      "index_values (Ref (next_ref r))
         (map (read_obj (build_network data)) (map fst (build_network data)))
         (r\<lparr>heap := (heap r)(next_ref r := build_network data), next_ref := Suc (next_ref r)\<rparr>)
       = (Some e, r2)"
      and "addNetwork data r = (Inl e, r2)"
      and "heap r2 = (heap r)(next_ref r := build_network data)"
      and "next_ref r2 = Suc (next_ref r)" and "networks r2 = networks r"
proof -
  let ?vs = "map (read_obj (build_network data)) (map fst (build_network data))"
  let ?r1 = "r\<lparr>heap := (heap r)(next_ref r := build_network data), next_ref := Suc (next_ref r)\<rparr>"
  obtain x r2 where iv: "index_values (Ref (next_ref r)) ?vs ?r1 = (x, r2)"
    by (cases "index_values (Ref (next_ref r)) ?vs ?r1") blast
  from index_values_fields [of "Ref (next_ref r)" ?vs ?r1] iv
  have f: "heap r2 = (heap r)(next_ref r := build_network data)"
    "next_ref r2 = Suc (next_ref r)" "networks r2 = networks r"
    by simp_all
  show thesis
  proof (cases x)
    case None
    with iv have "addNetwork data r = (Inr (next_ref r), r2\<lparr>networks := networks r2 @ [next_ref r]\<rparr>)"
      by (simp add: addNetwork_def Let_def)
    with iv None f show thesis
      by (intro returns [of r2]) simp_all
  next
    case (Some e)
    with iv have "addNetwork data r = (Inl e, r2)"
      by (simp add: addNetwork_def Let_def)
    with iv Some f show thesis
      by (intro throws [of e r2]) simp_all
  qed
qed

lemma addNetwork_heap [simp]:
  "heap (snd (addNetwork data r)) = (heap r)(next_ref r := build_network data)"
  by (cases data r rule: addNetwork_cases) simp_all

lemma addNetwork_next_ref [simp]: "next_ref (snd (addNetwork data r)) = Suc (next_ref r)"
  by (cases data r rule: addNetwork_cases) simp_all

lemma addNetwork_networks:
  "networks (snd (addNetwork data r)) =
     (case fst (addNetwork data r) of
        Inr d \<Rightarrow> networks r @ [next_ref r]
      | Inl e \<Rightarrow> networks r)"
  by (cases data r rule: addNetwork_cases) simp_all

lemma addNetwork_returns: "fst (addNetwork data r) = Inr d \<Longrightarrow> d = next_ref r"
  by (cases data r rule: addNetwork_cases) simp_all

lemma removeNetwork_fields [simp]:
  "heap (removeNetwork n r) = heap r"
  "next_ref (removeNetwork n r) = next_ref r"
  "maps_proto (removeNetwork n r) = maps_proto r"
  by (simp_all add: removeNetwork_def)

lemma assign_property_fields [simp]:
  "next_ref (assign_property t k v r) = next_ref r"
  "networks (assign_property t k v r) = networks r"
  "networkMaps (assign_property t k v r) = networkMaps r"
  "maps_proto (assign_property t k v r) = maps_proto r"
  by (auto simp: assign_property_def split: jsval.splits)

section \<open>The registry after initialisation, computed\<close>

lemmas add_eval =
  addNetwork_def build_network_def defineImmutable_def index_value_def maps_write_def
  own_write_def default_write_def set_prototype_def
  read_obj_def object_prototype_def of_str_def of_num_def of_arr_def integerAsBuffer_def
  string_of_int_def string_of_nat.simps digit_chars_def Let_def

lemma add_livenet_value:
  "addNetwork livenet_spec empty_registry =
    (Inr 0,
     \<lparr>heap =
        (\<lambda>_. [])
        (0 := [(''name'', Frozen (Str ''livenet'')),
               (''alias'', Frozen (Str ''mainnet'')),
               (''pubkeyhash'', Frozen (Num (number 7352))),
               (''privatekey'', Frozen (Num (number 128))),
               (''scripthash'', Frozen (Num (number 7357))),
               (''xpubkey'', Frozen (Num (number 76067358))),
               (''xprivkey'', Frozen (Num (number 76066276))),
               (''zaddr'', Frozen (Num (number 5786))),
               (''zkey'', Frozen (Num (number 43830))),
               (''networkMagic'', Frozen (Buffer [36, 233, 39, 100])),
               (''port'', Frozen (Num (number 8233))),
               (''dnsSeeds'',
                Frozen (Array [''bzcseed.raptorpool.org'']))]),
        next_ref = Suc 0, networks = [0],
        networkMaps =
          [''livenet'' \<mapsto> Ref 0, ''mainnet'' \<mapsto> Ref 0, ''7352'' \<mapsto> Ref 0,
           ''128'' \<mapsto> Ref 0, ''7357'' \<mapsto> Ref 0, ''76067358'' \<mapsto> Ref 0,
           ''76066276'' \<mapsto> Ref 0, ''5786'' \<mapsto> Ref 0, ''43830'' \<mapsto> Ref 0,
           ''8233'' \<mapsto> Ref 0],
        maps_proto = None\<rparr>)"
  unfolding livenet_spec_def empty_registry_def
  by (simp add: add_eval)

lemma livenet_ref: "livenet = Ref 0"
  by (simp add: livenet_def registry1_def add_livenet_value get_def is_registered_def
      key_of_arg_def maps_read_def)

lemma add_testnet_value:
  "addNetwork testnet_spec registry1 =
    (Inr (Suc 0),
     \<lparr>heap =
        (\<lambda>_. [])
        (0 := [(''name'', Frozen (Str ''livenet'')),
               (''alias'', Frozen (Str ''mainnet'')),
               (''pubkeyhash'', Frozen (Num (number 7352))),
               (''privatekey'', Frozen (Num (number 128))),
               (''scripthash'', Frozen (Num (number 7357))),
               (''xpubkey'', Frozen (Num (number 76067358))),
               (''xprivkey'', Frozen (Num (number 76066276))),
               (''zaddr'', Frozen (Num (number 5786))),
               (''zkey'', Frozen (Num (number 43830))),
               (''networkMagic'', Frozen (Buffer [36, 233, 39, 100])),
               (''port'', Frozen (Num (number 8233))),
               (''dnsSeeds'',
                Frozen (Array [''bzcseed.raptorpool.org'']))],
           Suc 0 :=
             [(''name'', Frozen (Str ''testnet'')),
              (''alias'', Frozen (Str ''regtest'')),
              (''pubkeyhash'', Frozen (Num (number 7461))),
              (''privatekey'', Frozen (Num (number 239))),
              (''scripthash'', Frozen (Num (number 7354))),
              (''xpubkey'', Frozen (Num (number 70617039))),
              (''xprivkey'', Frozen (Num (number 70615956))),
              (''zaddr'', Frozen (Num (number 5814))),
              (''zkey'', Frozen (Num (number 44040)))]),
        next_ref = Suc (Suc 0), networks = [0, Suc 0],
        networkMaps =
          [''livenet'' \<mapsto> Ref 0, ''mainnet'' \<mapsto> Ref 0, ''7352'' \<mapsto> Ref 0,
           ''128'' \<mapsto> Ref 0, ''7357'' \<mapsto> Ref 0, ''76067358'' \<mapsto> Ref 0,
           ''76066276'' \<mapsto> Ref 0, ''5786'' \<mapsto> Ref 0, ''43830'' \<mapsto> Ref 0,
           ''8233'' \<mapsto> Ref 0, ''testnet'' \<mapsto> Ref (Suc 0),
           ''regtest'' \<mapsto> Ref (Suc 0), ''7461'' \<mapsto> Ref (Suc 0),
           ''239'' \<mapsto> Ref (Suc 0), ''7354'' \<mapsto> Ref (Suc 0),
           ''70617039'' \<mapsto> Ref (Suc 0), ''70615956'' \<mapsto> Ref (Suc 0),
           ''5814'' \<mapsto> Ref (Suc 0), ''44040'' \<mapsto> Ref (Suc 0)],
        maps_proto = None\<rparr>)"
  unfolding testnet_spec_def registry1_def add_livenet_value
  by (simp add: add_eval)

lemma testnet_ref: "testnet = Ref (Suc 0)"
  by (simp add: testnet_def registry2_def add_testnet_value get_def is_registered_def
      key_of_arg_def maps_read_def)

lemma init_registry_value:
  "init_registry =
       \<lparr>heap =
          (\<lambda>_. [])
          (0 := [(''name'', Frozen (Str ''livenet'')),
                 (''alias'', Frozen (Str ''mainnet'')),
                 (''pubkeyhash'', Frozen (Num (number 7352))),
                 (''privatekey'', Frozen (Num (number 128))),
                 (''scripthash'', Frozen (Num (number 7357))),
                 (''xpubkey'', Frozen (Num (number 76067358))),
                 (''xprivkey'', Frozen (Num (number 76066276))),
                 (''zaddr'', Frozen (Num (number 5786))),
                 (''zkey'', Frozen (Num (number 43830))),
                 (''networkMagic'', Frozen (Buffer [36, 233, 39, 100])),
                 (''port'', Frozen (Num (number 8233))),
                 (''dnsSeeds'',
                  Frozen (Array [''bzcseed.raptorpool.org'']))],
             Suc 0 :=
               [(''name'', Frozen (Str ''testnet'')),
                (''alias'', Frozen (Str ''regtest'')),
                (''pubkeyhash'', Frozen (Num (number 7461))),
                (''privatekey'', Frozen (Num (number 239))),
                (''scripthash'', Frozen (Num (number 7354))),
                (''xpubkey'', Frozen (Num (number 70617039))),
                (''xprivkey'', Frozen (Num (number 70615956))),
                (''zaddr'', Frozen (Num (number 5814))),
                (''zkey'', Frozen (Num (number 44040))),
                (''port'',
                 Getter (Num (number 18233)) (Num (number 18444))),
                (''networkMagic'',
                 Getter (Buffer [250, 26, 249, 191])
                  (Buffer [170, 232, 63, 95])),
                (''dnsSeeds'',
                 Getter (Array [''dnsseedtestnet.zelcash.online''])
                  (Array []))]),
          next_ref = Suc (Suc 0), networks = [0, Suc 0],
          networkMaps =
            [''livenet'' \<mapsto> Ref 0, ''mainnet'' \<mapsto> Ref 0, ''7352'' \<mapsto> Ref 0,
             ''128'' \<mapsto> Ref 0, ''7357'' \<mapsto> Ref 0, ''76067358'' \<mapsto> Ref 0,
             ''76066276'' \<mapsto> Ref 0, ''5786'' \<mapsto> Ref 0, ''43830'' \<mapsto> Ref 0,
             ''8233'' \<mapsto> Ref 0, ''testnet'' \<mapsto> Ref (Suc 0),
             ''regtest'' \<mapsto> Ref (Suc 0), ''7461'' \<mapsto> Ref (Suc 0),
             ''239'' \<mapsto> Ref (Suc 0), ''7354'' \<mapsto> Ref (Suc 0),
             ''70617039'' \<mapsto> Ref (Suc 0), ''70615956'' \<mapsto> Ref (Suc 0),
             ''5814'' \<mapsto> Ref (Suc 0), ''44040'' \<mapsto> Ref (Suc 0),
             ''18233'' \<mapsto> Ref (Suc 0), ''18444'' \<mapsto> Ref (Suc 0)],
          maps_proto = None\<rparr>"
  (is "_ = ?R")
proof -
  have m: "module_load = Inr ?R"
    unfolding module_load_def add_livenet_value registry2_def add_testnet_value
    by (simp add: testnet_ref TESTNET_def REGTEST_def member_def defineGetter_def
        define_getters_def maps_write_def own_write_def default_write_def integerAsBuffer_def
        string_of_int_def string_of_nat.simps digit_chars_def Let_def)
  show ?thesis
    unfolding init_registry_def m by simp
qed

lemma init_networks: "networks init_registry = [0, Suc 0]"
  by (simp add: init_registry_value)

lemma init_next_ref: "next_ref init_registry = Suc (Suc 0)"
  by (simp add: init_registry_value)

lemma init_maps_proto: "maps_proto init_registry = None"
  by (simp add: init_registry_value)

lemma module_load_value: "module_load = Inr init_registry"
proof (cases module_load)
  case (Inl e)
  have "init_registry = empty_registry"
    unfolding init_registry_def Inl by simp
  then have "next_ref init_registry = next_ref empty_registry"
    by (rule arg_cong)
  then show ?thesis
    by (simp add: init_next_ref empty_registry_def)
next
  case (Inr r)
  have "init_registry = r"
    unfolding init_registry_def Inr by simp
  with Inr show ?thesis
    by simp
qed

section \<open>The object that add builds\<close>

lemma build_network_networkMagic:
  "map_of (build_network data) ''networkMagic'' =
     (case networkMagic data of
        Some m \<Rightarrow> if int_of m = 0 then None else Some (Frozen (integerAsBuffer m))
      | None \<Rightarrow> None)"
  by (cases "networkMagic data"; cases "port data"; cases "dnsSeeds data")
     (simp_all add: build_network_def defineImmutable_def of_num_def of_arr_def Let_def)

lemma build_network_port:
  "map_of (build_network data) ''port'' =
     (case port data of
        Some p \<Rightarrow> if int_of p = 0 then None else Some (Frozen (Num p))
      | None \<Rightarrow> None)"
  by (cases "networkMagic data"; cases "port data"; cases "dnsSeeds data")
     (simp_all add: build_network_def defineImmutable_def of_num_def of_arr_def Let_def)

lemma build_network_dnsSeeds:
  "map_of (build_network data) ''dnsSeeds'' =
     (case dnsSeeds data of Some a \<Rightarrow> Some (Frozen (Array a)) | None \<Rightarrow> None)"
  by (cases "networkMagic data"; cases "port data"; cases "dnsSeeds data")
     (simp_all add: build_network_def defineImmutable_def of_num_def of_arr_def Let_def)

section \<open>The networks of the list are allocated\<close>

lemma splice_loop_subset: "set (splice_loop i xs n) \<subseteq> set xs"
proof (induction i xs n rule: splice_loop.induct)
  case (1 i xs n)
  show ?case
  proof (cases "i < length xs")
    case True
    show ?thesis
    proof (cases "xs ! i = n")
      case hit: True
      have "set (take i xs @ drop (i + 1) xs) \<subseteq> set xs"
        by (auto dest: in_set_takeD in_set_dropD)
      with "1.IH"(1) [OF True hit] True hit show ?thesis
        by (subst splice_loop.simps) auto
    next
      case miss: False
      with "1.IH"(2) [OF True miss] True show ?thesis
        by (subst splice_loop.simps) simp
    qed
  next
    case False
    then show ?thesis
      by (subst splice_loop.simps) simp
  qed
qed

lemma allocated_init: "allocated init_registry"
  by (simp add: allocated_def init_networks init_next_ref)

lemma allocated_step: "allocated r \<Longrightarrow> allocated (step x r)"
proof (cases x)
  case (Add data)
  assume "allocated r"
  then show ?thesis
    using Add
    by (auto simp: allocated_def addNetwork_networks less_Suc_eq split: sum.splits)
next
  case (Remove n)
  assume "allocated r"
  then show ?thesis
    using Remove splice_loop_subset [of 0 "networks r" n]
    by (auto simp: allocated_def removeNetwork_def)
qed (simp_all add: allocated_def enableRegtest_def disableRegtest_def)

lemma allocated_fold: "allocated r \<Longrightarrow> allocated (fold step ops r)"
  by (induction ops arbitrary: r) (simp_all add: allocated_step)

lemma allocated_run: "allocated (run ops init_registry)"
  by (simp add: run_def allocated_fold allocated_init)

section \<open>The testnet object under the operations\<close>

lemma testnet_intact_init: "testnet_intact init_registry"
proof -
  have "heap init_registry (Suc 0) = testnet_object @ regtest_flag None"
    by (simp add: init_registry_value testnet_object_def regtest_flag_def)
  then show ?thesis
    unfolding testnet_intact_def by (metis init_next_ref order_refl)
qed

lemma assign_regtest_flag:
  "assign (testnet_object @ regtest_flag f) ''regtestEnabled'' (Bool b) =
   testnet_object @ regtest_flag (Some b)"
  by (cases f) (simp_all add: assign_def testnet_object_def regtest_flag_def)

lemma testnet_intact_toggle:
  "testnet_intact r \<Longrightarrow>
   heap (assign_property testnet ''regtestEnabled'' (Bool b) r) (Suc 0) =
   testnet_object @ regtest_flag (Some b)"
  by (auto simp: testnet_intact_def assign_property_def testnet_ref assign_regtest_flag)

lemma testnet_intact_assign:
  "testnet_intact r \<Longrightarrow> testnet_intact (assign_property testnet ''regtestEnabled'' (Bool b) r)"
  using testnet_intact_toggle [of r b] by (auto simp: testnet_intact_def)

lemma testnet_intact_step: "testnet_intact r \<Longrightarrow> testnet_intact (step x r)"
proof (cases x)
  case (Add data)
  assume "testnet_intact r"
  then show ?thesis
    using Add by (auto simp: testnet_intact_def)
next
  case (Remove n)
  assume "testnet_intact r"
  then show ?thesis
    using Remove by (auto simp: testnet_intact_def)
qed (simp_all add: testnet_intact_assign enableRegtest_def disableRegtest_def)

lemma testnet_intact_fold: "testnet_intact r \<Longrightarrow> testnet_intact (fold step ops r)"
  by (induction ops arbitrary: r) (simp_all add: testnet_intact_step)

lemma testnet_intact_run: "testnet_intact (run ops init_registry)"
  by (simp add: run_def testnet_intact_fold testnet_intact_init)

lemma read_testnet_object:
  "read_obj (testnet_object @ regtest_flag f) ''port'' =
     (if f = Some True then Num (number 18444) else Num (number 18233))"
  "read_obj (testnet_object @ regtest_flag f) ''dnsSeeds'' =
     (if f = Some True then Array [] else Array [''dnsseedtestnet.zelcash.online''])"
  "read_obj (testnet_object @ regtest_flag f) ''pubkeyhash'' = Num (number 7461)"
  "truthy (read_obj (testnet_object @ regtest_flag f) ''regtestEnabled'') = (f = Some True)"
  by (cases f; simp add: read_obj_def own_data_def testnet_object_def regtest_flag_def
      object_prototype_def object_prototype_names_def)+


lemma read_testnet_port:
  "testnet_intact r \<Longrightarrow>
   read_property r testnet ''port'' =
     (if truthy (read_property r testnet ''regtestEnabled'') then Num (number 18444) else Num (number 18233))"
  by (auto simp: testnet_intact_def read_property_def testnet_ref read_testnet_object)

lemma read_testnet_dnsSeeds:
  "testnet_intact r \<Longrightarrow>
   read_property r testnet ''dnsSeeds'' =
     (if truthy (read_property r testnet ''regtestEnabled'') then Array []
      else Array [''dnsseedtestnet.zelcash.online''])"
  by (auto simp: testnet_intact_def read_property_def testnet_ref read_testnet_object)

lemma read_testnet_pubkeyhash:
  "testnet_intact r \<Longrightarrow> read_property r testnet ''pubkeyhash'' = Num (number 7461)"
  by (auto simp: testnet_intact_def read_property_def testnet_ref read_testnet_object)

lemma regtestEnabled_toggle:
  "testnet_intact r \<Longrightarrow>
   truthy (read_property (assign_property testnet ''regtestEnabled'' (Bool b) r) testnet
     ''regtestEnabled'') = b"
  using testnet_intact_toggle [of r b]
  by (simp add: read_property_def testnet_ref read_testnet_object)

lemma regtestEnabled_init:
  "\<not> truthy (read_property init_registry testnet ''regtestEnabled'')"
  by (simp add: read_property_def testnet_ref init_registry_value read_obj_def
      object_prototype_def object_prototype_names_def)

lemma regtestEnabled_step:
  assumes "testnet_intact r" and "x \<noteq> EnableRegtest"
    and "\<not> truthy (read_property r testnet ''regtestEnabled'')"
  shows "\<not> truthy (read_property (step x r) testnet ''regtestEnabled'')"
proof (cases x)
  case (Add data)
  with assms show ?thesis
    by (auto simp: testnet_intact_def read_property_def testnet_ref)
next
  case (Remove n)
  with assms show ?thesis
    by (simp add: read_property_def testnet_ref)
next
  case (Get a ks)
  with assms show ?thesis by simp
next
  case EnableRegtest
  with assms show ?thesis by simp
next
  case DisableRegtest
  with assms(1) show ?thesis
    by (simp add: disableRegtest_def regtestEnabled_toggle)
qed

lemma regtestEnabled_fold:
  "testnet_intact r \<Longrightarrow> EnableRegtest \<notin> set ops \<Longrightarrow>
   \<not> truthy (read_property r testnet ''regtestEnabled'') \<Longrightarrow>
   \<not> truthy (read_property (fold step ops r) testnet ''regtestEnabled'')"
proof (induction ops arbitrary: r)
  case Nil
  then show ?case by simp
next
  case (Cons x ops)
  from Cons.prems have "x \<noteq> EnableRegtest" and "EnableRegtest \<notin> set ops"
    by auto
  with Cons.prems Cons.IH [of "step x r"] show ?case
    by (simp add: testnet_intact_step regtestEnabled_step)
qed

lemma regtestEnabled_never_enabled:
  "EnableRegtest \<notin> set ops \<Longrightarrow>
   \<not> truthy (read_property (run ops init_registry) testnet ''regtestEnabled'')"
  by (simp add: run_def regtestEnabled_fold testnet_intact_init regtestEnabled_init)

section \<open>Looking numbers up in the reverse index\<close>

lemma toggles_fold:
  "set ops \<subseteq> {EnableRegtest, DisableRegtest} \<Longrightarrow>
   networkMaps (fold step ops r) = networkMaps r \<and>
   maps_proto (fold step ops r) = maps_proto r \<and>
   networks (fold step ops r) = networks r"
proof (induction ops arbitrary: r)
  case Nil
  then show ?case by simp
next
  case (Cons x ops)
  then have "x = EnableRegtest \<or> x = DisableRegtest" and "set ops \<subseteq> {EnableRegtest, DisableRegtest}"
    by auto
  with Cons.IH [of "step x r"] show ?case
    by (auto simp: enableRegtest_def disableRegtest_def)
qed

lemma maps_read_default:
  "maps_proto r = None \<Longrightarrow>
   maps_read r k = (case networkMaps r k of Some v \<Rightarrow> v | None \<Rightarrow> object_prototype k)"
  by (simp add: maps_read_def split: option.splits)

lemma get_number_index:
  "networkMaps r' = networkMaps r \<Longrightarrow> maps_proto r' = None \<Longrightarrow> maps_proto r = None \<Longrightarrow>
   get r' (ANum n) NoKeys = get r (ANum n) NoKeys"
  by (simp add: get_def is_registered_def key_of_arg_def maps_read_default)

lemma get_number_default:
  "maps_proto r = None \<Longrightarrow>
   get r (ANum n) NoKeys =
     (case networkMaps r (string_of_int (int_of n)) of
        Some v \<Rightarrow> v | None \<Rightarrow> object_prototype (string_of_int (int_of n)))"
  by (simp add: get_def is_registered_def key_of_arg_def maps_read_default)

lemma bundle_keys:
  "string_of_int 18233 = ''18233''"
  "string_of_int 18444 = ''18444''"
  "string_of_int 0xfa1af9bf = ''4196071871''"
  "string_of_int 0xaae83f5f = ''2867347295''"
  "string_of_int 8233 = ''8233''"
  by (simp_all add: string_of_int_def string_of_nat.simps digit_chars_def)

lemma init_bundle_entries:
  "networkMaps init_registry ''18233'' = Some (Ref (Suc 0))"
  "networkMaps init_registry ''18444'' = Some (Ref (Suc 0))"
  "networkMaps init_registry ''4196071871'' = None"
  "networkMaps init_registry ''2867347295'' = None"
  "networkMaps init_registry ''8233'' = Some (Ref 0)"
  by (simp_all add: init_registry_value)

lemma magic_keys_not_inherited:
  "object_prototype ''4196071871'' = Undefined"
  "object_prototype ''2867347295'' = Undefined"
  by (simp_all add: object_prototype_def object_prototype_names_def)

lemma init_get_ports:
  "get init_registry (ANum (number 18233)) NoKeys = Ref (Suc 0)"
  "get init_registry (ANum (number 18444)) NoKeys = Ref (Suc 0)"
  by (simp_all add: get_number_default init_maps_proto bundle_keys init_bundle_entries)

lemma init_get_magics:
  "get init_registry (ANum (number 0xfa1af9bf)) NoKeys = Undefined"
  "get init_registry (ANum (number 0xaae83f5f)) NoKeys = Undefined"
  by (simp_all add: get_number_default init_maps_proto bundle_keys init_bundle_entries
      magic_keys_not_inherited)

lemma get_string_default:
  "maps_proto r = None \<Longrightarrow>
   get r (AStr s) NoKeys =
     (case networkMaps r s of Some v \<Rightarrow> v | None \<Rightarrow> object_prototype s)"
  by (simp add: get_def is_registered_def key_of_arg_def maps_read_default)

lemma get_number_written:
  "networkMaps r (string_of_int (int_of v)) = Some w \<Longrightarrow> get r (ANum v) NoKeys = w"
  by (simp add: get_def is_registered_def key_of_arg_def maps_read_def)

lemma get_string_written:
  "networkMaps r s = Some w \<Longrightarrow> get r (AStr s) NoKeys = w"
  by (simp add: get_def is_registered_def key_of_arg_def maps_read_def)

section \<open>Decimal strings\<close>

lemma string_of_nat_last:
  "string_of_nat n \<noteq> [] \<and> last (string_of_nat n) \<in> set digit_chars"
proof (induction n rule: string_of_nat.induct)
  case (1 n)
  show ?case
  proof (cases "n < 10")
    case True
    then have "digit_chars ! n \<in> set digit_chars"
      by (intro nth_mem) (simp add: digit_chars_def)
    with True show ?thesis
      by (subst (1 2) string_of_nat.simps) simp
  next
    case False
    have "digit_chars ! (n mod 10) \<in> set digit_chars"
      by (intro nth_mem) (simp add: digit_chars_def)
    with False show ?thesis
      by (subst (1 2) string_of_nat.simps) simp
  qed
qed

lemma string_of_int_last:
  "string_of_int i \<noteq> [] \<and> last (string_of_int i) \<in> set digit_chars"
  using string_of_nat_last by (simp add: string_of_int_def)

lemma string_of_int_not_proto: "string_of_int i \<noteq> ''__proto__''"
proof
  assume "string_of_int i = ''__proto__''"
  with string_of_int_last [of i] show False
    by (simp add: digit_chars_def)
qed

lemma string_of_int_not_inherited: "object_prototype (string_of_int i) = Undefined"
proof -
  have "string_of_int i \<notin> set object_prototype_names"
  proof
    assume "string_of_int i \<in> set object_prototype_names"
    then have "last (string_of_int i) \<in> last ` set object_prototype_names"
      by (rule imageI)
    moreover have "last ` set object_prototype_names \<inter> set digit_chars = {}"
      by (simp add: object_prototype_names_def digit_chars_def)
    ultimately show False
      using string_of_int_last [of i] by blast
  qed
  then show ?thesis
    by (simp add: object_prototype_def)
qed

section \<open>What add writes\<close>

lemma maps_write_other:
  "maps_write k v r = Inr r' \<Longrightarrow> k' \<noteq> k \<Longrightarrow> networkMaps r' k' = networkMaps r k'"
  by (auto simp: maps_write_def default_write_def split: option.splits jsprop.splits if_splits)

lemma maps_write_key:
  "maps_write k v r = Inr r' \<Longrightarrow> k \<noteq> ''__proto__'' \<Longrightarrow> networkMaps r' k = Some v"
  by (auto simp: maps_write_def default_write_def split: option.splits jsprop.splits if_splits)

lemma maps_write_stays:
  "maps_write k v r = Inr r' \<Longrightarrow> networkMaps r k' = Some v \<Longrightarrow> networkMaps r' k' = Some v"
  by (auto simp: maps_write_def default_write_def split: option.splits jsprop.splits if_splits)

lemma index_value_stays:
  "index_value n v r = Inr r' \<Longrightarrow> networkMaps r k = Some n \<Longrightarrow> networkMaps r' k = Some n"
  by (auto simp: index_value_def maps_write_stays split: if_splits)

lemma index_values_stays:
  "index_values n vs r = (None, r2) \<Longrightarrow> networkMaps r k = Some n \<Longrightarrow>
   networkMaps r2 k = Some n"
proof (induction vs arbitrary: r)
  case Nil
  then show ?case by simp
next
  case (Cons v vs)
  show ?case
  proof (cases "index_value n v r")
    case (Inl e)
    with Cons.prems(1) show ?thesis by simp
  next
    case (Inr r')
    with Cons.prems(1) have "index_values n vs r' = (None, r2)"
      by simp
    moreover have "networkMaps r' k = Some n"
      using Inr Cons.prems(2) by (rule index_value_stays)
    ultimately show ?thesis
      by (rule Cons.IH)
  qed
qed

lemma index_value_writes:
  "index_value n v r = Inr r' \<Longrightarrow> v \<noteq> Undefined \<Longrightarrow> \<not> isObject v \<Longrightarrow>
   to_key v \<noteq> ''__proto__'' \<Longrightarrow> networkMaps r' (to_key v) = Some n"
  by (simp add: index_value_def maps_write_key)

lemma index_values_writes:
  "index_values n vs r = (None, r2) \<Longrightarrow> v \<in> set vs \<Longrightarrow> v \<noteq> Undefined \<Longrightarrow>
   \<not> isObject v \<Longrightarrow> to_key v \<noteq> ''__proto__'' \<Longrightarrow>
   networkMaps r2 (to_key v) = Some n"
proof (induction vs arbitrary: r)
  case Nil
  then show ?case by simp
next
  case (Cons a vs)
  show ?case
  proof (cases "index_value n a r")
    case (Inl e)
    with Cons.prems(1) show ?thesis by simp
  next
    case (Inr r')
    with Cons.prems(1) have rest: "index_values n vs r' = (None, r2)"
      by simp
    show ?thesis
    proof (cases "a = v")
      case True
      with Inr Cons.prems have "networkMaps r' (to_key v) = Some n"
        by (simp add: index_value_writes)
      with rest show ?thesis
        by (rule index_values_stays)
    next
      case False
      with Cons.prems(2) have "v \<in> set vs" by simp
      with rest Cons.prems Cons.IH [of r'] show ?thesis
        by simp
    qed
  qed
qed

lemma read_frozen:
  "map_of ob k = Some (Frozen v) \<Longrightarrow> k \<in> fst ` set ob \<and> read_obj ob k = v"
  by (auto simp: read_obj_def dest: map_of_SomeD intro: rev_image_eqI)

lemma addNetwork_written:
  assumes "fst (addNetwork data r) = Inr d"
    and "k \<in> fst ` set (build_network data)"
    and "read_obj (build_network data) k = v"
    and "v \<noteq> Undefined" and "\<not> isObject v" and "to_key v \<noteq> ''__proto__''"
  shows "networkMaps (snd (addNetwork data r)) (to_key v) = Some (Ref d)"
proof (cases data r rule: addNetwork_cases)
  case (returns r2)
  from assms(2,3) have "v \<in> set (map (read_obj (build_network data)) (map fst (build_network data)))"
    by auto
  with returns(1) assms(4-6) have "networkMaps r2 (to_key v) = Some (Ref (next_ref r))"
    by (intro index_values_writes)
  with returns(2) assms(1) show ?thesis
    by simp
next
  case (throws e r2)
  with assms(1) show ?thesis by simp
qed

lemma build_network_keys:
  "''name'' \<in> fst ` set (build_network data)"
  "''pubkeyhash'' \<in> fst ` set (build_network data)"
  "''scripthash'' \<in> fst ` set (build_network data)"
  by (simp_all add: build_network_def defineImmutable_def Let_def split: option.splits)

lemma build_network_reads:
  "read_obj (build_network data) ''name'' = of_str (name data)"
  "read_obj (build_network data) ''pubkeyhash'' = of_num (pubkeyhash data)"
  "read_obj (build_network data) ''scripthash'' = of_num (scripthash data)"
  by (simp_all add: read_obj_def build_network_def defineImmutable_def Let_def
      split: option.splits)

lemma all_frozen_Nil [simp]: "all_frozen P []"
  by (simp add: all_frozen_def)

lemma all_frozen_defineImmutable [simp]:
  "all_frozen P (defineImmutable target vs) \<longleftrightarrow>
   all_frozen P target \<and> (\<forall>(k, v) \<in> set vs. P v)"
  by (fastforce simp: all_frozen_def defineImmutable_def ball_Un image_iff)

lemma all_frozen_read:
  assumes "all_frozen P ob" and "k \<in> set (map fst ob)"
  shows "P (read_obj ob k)"
proof -
  from assms(2) obtain p where p: "map_of ob k = Some p"
    by (metis map_of_eq_None_iff not_Some_eq set_map)
  then have "(k, p) \<in> set ob"
    by (rule map_of_SomeD)
  with assms(1) obtain v where "p = Frozen v" and "P v"
    by (auto simp: all_frozen_def)
  with p show ?thesis
    by (simp add: read_obj_def)
qed

lemma keeps_prototype_simps [simp]:
  "keeps_prototype (of_num x)"
  "keeps_prototype (Num i)"
  "keeps_prototype (of_arr y)"
  "keeps_prototype (integerAsBuffer m)"
  "keeps_prototype (of_str z) \<longleftrightarrow> z \<noteq> Some ''__proto__''"
  by (auto simp: keeps_prototype_def of_num_def of_arr_def of_str_def integerAsBuffer_def
      string_of_int_not_proto split: option.splits)

lemma build_network_keeps_prototype:
  assumes "name data \<noteq> Some ''__proto__''" and "alias_f data \<noteq> Some ''__proto__''"
  shows "all_frozen keeps_prototype (build_network data)"
  using assms by (simp add: build_network_def Let_def split: option.splits)

lemma index_value_default:
  assumes "maps_proto r = None" and "keeps_prototype v"
  obtains r' where "index_value n v r = Inr r'" and "maps_proto r' = None"
proof (cases "v \<noteq> Undefined \<and> \<not> isObject v")
  case True
  with assms(2) have key: "to_key v \<noteq> ''__proto__''"
    by (auto simp: keeps_prototype_def)
  show thesis
  proof (cases "networkMaps r (to_key v)")
    case None
    with True key assms(1) have "index_value n v r = Inr (own_write (to_key v) n r)"
      by (simp add: index_value_def maps_write_def default_write_def)
    with assms(1) show thesis
      by (intro that [of "own_write (to_key v) n r"]) simp_all
  next
    case (Some u)
    with True have "index_value n v r = Inr (own_write (to_key v) n r)"
      by (simp add: index_value_def maps_write_def)
    with assms(1) show thesis
      by (intro that [of "own_write (to_key v) n r"]) simp_all
  qed
next
  case False
  then have "index_value n v r = Inr r"
    by (auto simp: index_value_def)
  with assms(1) show thesis
    by (intro that [of r])
qed

lemma index_values_default:
  "maps_proto r = None \<Longrightarrow> \<forall>v \<in> set vs. keeps_prototype v \<Longrightarrow>
   fst (index_values n vs r) = None \<and> maps_proto (snd (index_values n vs r)) = None"
proof (induction vs arbitrary: r)
  case Nil
  then show ?case by simp
next
  case (Cons v vs)
  from Cons.prems have "keeps_prototype v"
    by simp
  with Cons.prems(1) obtain r' where r': "index_value n v r = Inr r'" "maps_proto r' = None"
    by (rule index_value_default)
  with Cons.IH [of r'] Cons.prems(2) show ?case
    by simp
qed

lemma addNetwork_default:
  assumes "maps_proto r = None"
    and "name data \<noteq> Some ''__proto__''" and "alias_f data \<noteq> Some ''__proto__''"
  shows "fst (addNetwork data r) = Inr (next_ref r)"
    and "maps_proto (snd (addNetwork data r)) = None"
proof -
  let ?vs = "map (read_obj (build_network data)) (map fst (build_network data))"
  let ?r1 = "r\<lparr>heap := (heap r)(next_ref r := build_network data), next_ref := Suc (next_ref r)\<rparr>"
  have "\<forall>v \<in> set ?vs. keeps_prototype v"
    using all_frozen_read [OF build_network_keeps_prototype [OF assms(2,3)]] by auto
  moreover have "maps_proto ?r1 = None"
    using assms(1) by simp
  ultimately have iv: "fst (index_values (Ref (next_ref r)) ?vs ?r1) = None"
    "maps_proto (snd (index_values (Ref (next_ref r)) ?vs ?r1)) = None"
    using index_values_default [of ?r1 ?vs "Ref (next_ref r)"] by simp_all
  show "fst (addNetwork data r) = Inr (next_ref r)"
    using iv(1) by (cases data r rule: addNetwork_cases) simp_all
  show "maps_proto (snd (addNetwork data r)) = None"
    using iv by (cases data r rule: addNetwork_cases) simp_all
qed

section \<open>The keyed scan on a number\<close>

lemma get_number_keyed:
  "k \<noteq> [] \<Longrightarrow>
   get r (ANum v) (KeyName k) =
     (case find (\<lambda>n. read_obj (heap r n) k = Num v) (networks r) of
        Some n \<Rightarrow> Ref n | None \<Rightarrow> Undefined)"
  by (simp add: get_def is_registered_def keyed_scan_def containsArg_def)

lemma get_number_first_match:
  assumes "k \<noteq> []" and "n \<in> set (networks r)" and "read_obj (heap r n) k = Num v"
  shows "\<exists>i<length (networks r).
           get r (ANum v) (KeyName k) = Ref (networks r ! i) \<and>
           read_obj (heap r (networks r ! i)) k = Num v \<and>
           (\<forall>j<i. read_obj (heap r (networks r ! j)) k \<noteq> Num v)"
proof -
  let ?P = "\<lambda>n. read_obj (heap r n) k = Num v"
  from assms(2,3) have "find ?P (networks r) \<noteq> None"
    by (auto simp: find_None_iff)
  then obtain m where m: "find ?P (networks r) = Some m"
    by auto
  then obtain i where "i < length (networks r)" and "?P (networks r ! i)"
    and "m = networks r ! i" and "\<forall>j<i. \<not> ?P (networks r ! j)"
    by (auto simp: find_Some_iff)
  with m assms(1) show ?thesis
    by (auto simp: get_number_keyed)
qed

lemma find_append_fresh:
  "\<forall>x \<in> set xs. \<not> P x \<Longrightarrow> P y \<Longrightarrow> find P (xs @ y # ys) = Some y"
  by (induction xs) simp_all

section \<open>What the operations leave alone\<close>




















section \<open>An add that throws\<close>

text \<open>
  A descriptor named \<open>__proto__\<close> is added: the assignment of its name to the index
  makes it the prototype of \<open>networkMaps\<close>, and \<open>add\<close> returns.
\<close>

lemma add_proto_value:
  "addNetwork (custom_spec\<lparr>name := Some ''__proto__''\<rparr>) init_registry =
   (Inr (Suc (Suc 0)),
    \<lparr>heap =
       (\<lambda>_. [])
       (0 := [(''name'', Frozen (Str ''livenet'')),
              (''alias'', Frozen (Str ''mainnet'')),
              (''pubkeyhash'', Frozen (Num (number 7352))),
              (''privatekey'', Frozen (Num (number 128))),
              (''scripthash'', Frozen (Num (number 7357))),
              (''xpubkey'', Frozen (Num (number 76067358))),
              (''xprivkey'', Frozen (Num (number 76066276))),
              (''zaddr'', Frozen (Num (number 5786))),
              (''zkey'', Frozen (Num (number 43830))),
              (''networkMagic'', Frozen (Buffer [36, 233, 39, 100])),
              (''port'', Frozen (Num (number 8233))),
              (''dnsSeeds'',
               Frozen (Array [''bzcseed.raptorpool.org'']))],
          Suc 0 :=
            [(''name'', Frozen (Str ''testnet'')),
             (''alias'', Frozen (Str ''regtest'')),
             (''pubkeyhash'', Frozen (Num (number 7461))),
             (''privatekey'', Frozen (Num (number 239))),
             (''scripthash'', Frozen (Num (number 7354))),
             (''xpubkey'', Frozen (Num (number 70617039))),
             (''xprivkey'', Frozen (Num (number 70615956))),
             (''zaddr'', Frozen (Num (number 5814))),
             (''zkey'', Frozen (Num (number 44040))),
             (''port'', Getter (Num (number 18233)) (Num (number 18444))),
             (''networkMagic'',
              Getter (Buffer [250, 26, 249, 191])
               (Buffer [170, 232, 63, 95])),
             (''dnsSeeds'',
              Getter (Array [''dnsseedtestnet.zelcash.online''])
               (Array []))],
          Suc (Suc 0) :=
            [(''name'', Frozen (Str ''__proto__'')),
             (''alias'', Frozen (Str ''mynet'')),
             (''pubkeyhash'', Frozen (Num (number 16))),
             (''privatekey'', Frozen (Num (number 30))),
             (''scripthash'', Frozen (Num (number 15))),
             (''xpubkey'', Frozen (Num (number 48815759))),
             (''xprivkey'', Frozen (Num (number 48814676))),
             (''zaddr'', Frozen (Num (number 5824))),
             (''zkey'', Frozen (Num (number 44044)))]),
       next_ref = Suc (Suc (Suc 0)), networks = [0, Suc 0, Suc (Suc 0)],
       networkMaps =
         [''livenet'' \<mapsto> Ref 0, ''mainnet'' \<mapsto> Ref 0, ''7352'' \<mapsto> Ref 0,
          ''128'' \<mapsto> Ref 0, ''7357'' \<mapsto> Ref 0, ''76067358'' \<mapsto> Ref 0,
          ''76066276'' \<mapsto> Ref 0, ''5786'' \<mapsto> Ref 0, ''43830'' \<mapsto> Ref 0,
          ''8233'' \<mapsto> Ref 0, ''testnet'' \<mapsto> Ref (Suc 0),
          ''regtest'' \<mapsto> Ref (Suc 0), ''7461'' \<mapsto> Ref (Suc 0),
          ''239'' \<mapsto> Ref (Suc 0), ''7354'' \<mapsto> Ref (Suc 0),
          ''70617039'' \<mapsto> Ref (Suc 0), ''70615956'' \<mapsto> Ref (Suc 0),
          ''5814'' \<mapsto> Ref (Suc 0), ''44040'' \<mapsto> Ref (Suc 0),
          ''18233'' \<mapsto> Ref (Suc 0), ''18444'' \<mapsto> Ref (Suc 0),
          ''mynet'' \<mapsto> Ref (Suc (Suc 0)), ''16'' \<mapsto> Ref (Suc (Suc 0)),
          ''30'' \<mapsto> Ref (Suc (Suc 0)), ''15'' \<mapsto> Ref (Suc (Suc 0)),
          ''48815759'' \<mapsto> Ref (Suc (Suc 0)),
          ''48814676'' \<mapsto> Ref (Suc (Suc 0)), ''5824'' \<mapsto> Ref (Suc (Suc 0)),
          ''44044'' \<mapsto> Ref (Suc (Suc 0))],
       maps_proto = Some (Suc (Suc 0))\<rparr>)"
  unfolding custom_spec_def init_registry_value
  by (simp add: add_eval)

text \<open>
  The next descriptor has the name \<open>x\<close> and the alias \<open>alias\<close>. Its name is indexed;
  the assignment of \<open>networkMaps['alias']\<close> then meets the read-only property \<open>alias\<close>
  of the prototype and throws, before the descriptor is pushed onto the list.
\<close>

lemma add_after_proto:
  "fst (addNetwork (custom_spec\<lparr>name := Some ''x'', alias_f := Some ''alias''\<rparr>)
          (snd (addNetwork (custom_spec\<lparr>name := Some ''__proto__''\<rparr>) init_registry)))
     = Inl TypeError"
  "networks (snd (addNetwork (custom_spec\<lparr>name := Some ''x'', alias_f := Some ''alias''\<rparr>)
          (snd (addNetwork (custom_spec\<lparr>name := Some ''__proto__''\<rparr>) init_registry))))
     = [0, Suc 0, Suc (Suc 0)]"
  "networkMaps (snd (addNetwork (custom_spec\<lparr>name := Some ''x'', alias_f := Some ''alias''\<rparr>)
          (snd (addNetwork (custom_spec\<lparr>name := Some ''__proto__''\<rparr>) init_registry))))
     ''x'' = Some (Ref 3)"
  unfolding add_proto_value unfolding custom_spec_def
  by (simp_all add: add_eval numeral_3_eq_3)

section \<open>The claims\<close>

text \<open>
  C6. For every descriptor in the ordered list of the registry, \<open>get\<close> returns that very
  descriptor, whatever the \<open>keys\<close> argument is; in particular \<open>get(livenet)\<close> is livenet.
\<close>

theorem get_registered_identity:
  "(n \<in> set (networks r) \<longrightarrow> get r (ANetwork n) ks = Ref n) \<and>
   (val_of_arg a = livenet \<longrightarrow> get init_registry a ks = livenet)"
proof
  show "n \<in> set (networks r) \<longrightarrow> get r (ANetwork n) ks = Ref n"
    by (simp add: get_def is_registered_def)
next
  show "val_of_arg a = livenet \<longrightarrow> get init_registry a ks = livenet"
    by (cases a) (simp_all add: livenet_ref get_def is_registered_def init_networks)
qed

theorem get_registered_identity_witness:
  "Suc 0 \<in> set (networks init_registry) \<and>
   get init_registry (ANetwork (Suc 0)) (KeyName ''port'') = Ref (Suc 0) \<and>
   val_of_arg (ANetwork 0) = livenet \<and>
   get init_registry (ANetwork 0) (KeyList [''name'', ''alias'']) = livenet"
  using get_registered_identity [of "Suc 0" init_registry "KeyName ''port''" "ANetwork 0"]
    get_registered_identity [of 0 init_registry "KeyList [''name'', ''alias'']" "ANetwork 0"]
  by (simp add: init_networks livenet_ref)

text \<open>
  C10. The reverse index does not tell a number from its decimal string. The key of a
  number is the string of its decimal digits (8233 gives \<open>8233\<close>, 18444 gives
  \<open>18444\<close>), on insertion and on lookup alike. Whenever the index holds a descriptor
  under the digits of a number, \<open>get\<close> of the number and \<open>get\<close> of the digit string
  both return that descriptor. After \<open>add\<close> has returned a descriptor, every number
  held in a field of it is such a number, with the new descriptor as the result. And
  after initialisation \<open>get(8233)\<close> and \<open>get('8233')\<close> are both the livenet descriptor,
  the object at address 0 whose name is livenet.
\<close>

theorem get_number_as_string:
  "(networkMaps r (string_of_int (int_of v)) = Some (Ref d) \<longrightarrow>
      get r (ANum v) NoKeys = Ref d \<and>
      get r (AStr (string_of_int (int_of v))) NoKeys = Ref d) \<and>
   (fst (addNetwork data r) = Inr d \<and>
    map_of (heap (snd (addNetwork data r)) d) k = Some (Frozen (Num v)) \<longrightarrow>
      get (snd (addNetwork data r)) (ANum v) NoKeys = Ref d \<and>
      get (snd (addNetwork data r)) (AStr (string_of_int (int_of v))) NoKeys = Ref d) \<and>
   string_of_int (int_of (number 8233)) = ''8233'' \<and>
   string_of_int (int_of (number 18444)) = ''18444'' \<and>
   get init_registry (ANum (number 8233)) NoKeys = Ref 0 \<and>
   get init_registry (AStr ''8233'') NoKeys = Ref 0 \<and>
   livenet = Ref 0 \<and>
   0 \<in> set (networks init_registry) \<and>
   read_property init_registry (Ref 0) ''name'' = Str ''livenet''"
proof -
  have a: "get r (ANum v) NoKeys = Ref d \<and>
      get r (AStr (string_of_int (int_of v))) NoKeys = Ref d"
    if "networkMaps r (string_of_int (int_of v)) = Some (Ref d)" for r
    using that by (simp add: get_number_written get_string_written)
  have b: "get (snd (addNetwork data r)) (ANum v) NoKeys = Ref d \<and>
      get (snd (addNetwork data r)) (AStr (string_of_int (int_of v))) NoKeys = Ref d"
    if ret: "fst (addNetwork data r) = Inr d"
      and fld: "map_of (heap (snd (addNetwork data r)) d) k = Some (Frozen (Num v))"
  proof -
    from ret have d: "d = next_ref r"
      by (rule addNetwork_returns)
    with fld have "map_of (build_network data) k = Some (Frozen (Num v))"
      by simp
    then have "k \<in> fst ` set (build_network data)" and "read_obj (build_network data) k = Num v"
      by (simp_all add: read_frozen)
    then have "networkMaps (snd (addNetwork data r)) (to_key (Num v)) = Some (Ref d)"
      using ret by (intro addNetwork_written) (simp_all add: string_of_int_not_proto)
    then show ?thesis
      by (intro a) simp
  qed
  have c: "string_of_int (int_of (number 8233)) = ''8233''"
    "string_of_int (int_of (number 18444)) = ''18444''"
    by (simp_all add: bundle_keys)
  have e: "get init_registry (ANum (number 8233)) NoKeys = Ref 0"
    by (rule get_number_written) (simp add: bundle_keys init_bundle_entries)
  have f: "get init_registry (AStr ''8233'') NoKeys = Ref 0"
    by (rule get_string_written) (simp add: init_bundle_entries)
  have g: "0 \<in> set (networks init_registry)"
    by (simp add: init_networks)
  have h: "read_property init_registry (Ref 0) ''name'' = Str ''livenet''"
    by (simp add: read_property_def init_registry_value read_obj_def)
  from a b c e f g h livenet_ref show ?thesis
    by (intro conjI impI) blast+
qed

theorem get_number_as_string_witness:
  "networkMaps init_registry (string_of_int (int_of (number 18444))) = Some (Ref (Suc 0)) \<and>
   get init_registry (ANum (number 18444)) NoKeys = Ref (Suc 0) \<and>
   get init_registry (AStr ''18444'') NoKeys = Ref (Suc 0) \<and>
   fst (addNetwork custom_spec init_registry) = Inr 2 \<and>
   map_of (heap (snd (addNetwork custom_spec init_registry)) 2) ''pubkeyhash'' =
     Some (Frozen (Num (number 16))) \<and>
   get (snd (addNetwork custom_spec init_registry)) (ANum (number 16)) NoKeys = Ref 2 \<and>
   get (snd (addNetwork custom_spec init_registry)) (AStr ''16'') NoKeys = Ref 2"
proof -
  have h1: "networkMaps init_registry (string_of_int (int_of (number 18444))) = Some (Ref (Suc 0))"
    by (simp add: bundle_keys init_bundle_entries)
  have h2: "fst (addNetwork custom_spec init_registry) = Inr 2"
    using addNetwork_default(1) [of init_registry custom_spec]
    by (simp add: init_maps_proto init_next_ref custom_spec_def)
  have h3: "map_of (heap (snd (addNetwork custom_spec init_registry)) 2) ''pubkeyhash'' =
      Some (Frozen (Num (number 16)))"
    by (simp add: init_next_ref build_network_def defineImmutable_def of_str_def of_num_def
        of_arr_def Let_def custom_spec_def)
  have s1: "string_of_int (int_of (number 18444)) = ''18444''"
    and s2: "string_of_int (int_of (number 16)) = ''16''"
    by (simp_all add: string_of_int_def string_of_nat.simps digit_chars_def)
  note t1 = get_number_as_string [of init_registry "number 18444" "Suc 0", THEN conjunct1,
      THEN mp, OF h1]
  note t2 = get_number_as_string [of init_registry "number 16" 2 custom_spec "''pubkeyhash''",
      THEN conjunct2, THEN conjunct1, THEN mp, OF conjI [OF h2 h3]]
  from h1 h2 h3 t1 t2 show ?thesis
    unfolding s1 s2 by (intro conjI) simp_all
qed

text \<open>
  C5, as the code has it. The descriptor that \<open>add\<close> returns has \<open>networkMagic\<close> and
  \<open>port\<close> exactly when the specification gives a number other than 0 for them, and
  \<open>dnsSeeds\<close> exactly when the specification gives an array (an empty one too); the
  magic is stored as its 4-byte buffer, the port and the seeds as given.
\<close>

theorem add_optional_fields:
  "fst (addNetwork data r) = Inr d \<longrightarrow>
   map_of (heap (snd (addNetwork data r)) d) ''networkMagic'' =
     (case networkMagic data of
        Some m \<Rightarrow> if int_of m = 0 then None else Some (Frozen (integerAsBuffer m))
      | None \<Rightarrow> None) \<and>
   map_of (heap (snd (addNetwork data r)) d) ''port'' =
     (case port data of
        Some p \<Rightarrow> if int_of p = 0 then None else Some (Frozen (Num p))
      | None \<Rightarrow> None) \<and>
   map_of (heap (snd (addNetwork data r)) d) ''dnsSeeds'' =
     (case dnsSeeds data of Some a \<Rightarrow> Some (Frozen (Array a)) | None \<Rightarrow> None)"
proof
  assume "fst (addNetwork data r) = Inr d"
  then have "d = next_ref r"
    by (rule addNetwork_returns)
  then have "heap (snd (addNetwork data r)) d = build_network data"
    by simp
  then show "map_of (heap (snd (addNetwork data r)) d) ''networkMagic'' =
     (case networkMagic data of
        Some m \<Rightarrow> if int_of m = 0 then None else Some (Frozen (integerAsBuffer m))
      | None \<Rightarrow> None) \<and>
   map_of (heap (snd (addNetwork data r)) d) ''port'' =
     (case port data of
        Some p \<Rightarrow> if int_of p = 0 then None else Some (Frozen (Num p))
      | None \<Rightarrow> None) \<and>
   map_of (heap (snd (addNetwork data r)) d) ''dnsSeeds'' =
     (case dnsSeeds data of Some a \<Rightarrow> Some (Frozen (Array a)) | None \<Rightarrow> None)"
    by (simp only: build_network_networkMagic build_network_port build_network_dnsSeeds)
qed

theorem add_optional_fields_witness:
  "fst (addNetwork livenet_spec empty_registry) = Inr 0 \<and>
   map_of (heap (snd (addNetwork livenet_spec empty_registry)) 0) ''networkMagic'' =
     Some (Frozen (Buffer [36, 233, 39, 100])) \<and>
   map_of (heap (snd (addNetwork livenet_spec empty_registry)) 0) ''port'' =
     Some (Frozen (Num (number 8233))) \<and>
   map_of (heap (snd (addNetwork livenet_spec empty_registry)) 0) ''dnsSeeds'' =
     Some (Frozen (Array [''bzcseed.raptorpool.org'']))"
proof -
  have h: "fst (addNetwork livenet_spec empty_registry) = Inr 0"
    by (simp add: add_livenet_value)
  have "networkMagic livenet_spec = Some (number 0x24e92764)"
    and "port livenet_spec = Some (number 8233)"
    and "dnsSeeds livenet_spec = Some [''bzcseed.raptorpool.org'']"
    by (simp_all add: livenet_spec_def)
  with h add_optional_fields [of livenet_spec empty_registry 0, THEN mp, OF h] show ?thesis
    by (simp add: integerAsBuffer_def)
qed

text \<open>
  C5 as the claim states it fails: a specification whose port is present with the value 0
  gives a descriptor without \<open>port\<close>.
\<close>

theorem add_port_zero_counterexample:
  "fst (addNetwork (livenet_spec\<lparr>port := Some (number 0)\<rparr>) init_registry) = Inr 2 \<and>
   port (livenet_spec\<lparr>port := Some (number 0)\<rparr>) = Some (number 0) \<and>
   map_of (heap (snd (addNetwork (livenet_spec\<lparr>port := Some (number 0)\<rparr>) init_registry)) 2)
     ''port'' = None"
proof -
  have "fst (addNetwork (livenet_spec\<lparr>port := Some (number 0)\<rparr>) init_registry) = Inr 2"
    using addNetwork_default(1) [of init_registry "livenet_spec\<lparr>port := Some (number 0)\<rparr>"]
    by (simp add: init_maps_proto init_next_ref livenet_spec_def)
  moreover have
    "map_of (heap (snd (addNetwork (livenet_spec\<lparr>port := Some (number 0)\<rparr>) init_registry)) 2)
       ''port'' = None"
    by (simp add: init_next_ref build_network_port)
  ultimately show ?thesis
    by simp
qed

text \<open>
  C2. In every state that the exported operations reach from the initial registry:
  \<open>testnet.port\<close> is 18233 as long as \<open>enableRegtest\<close> has not been called, 18444
  after \<open>enableRegtest()\<close> and 18233 again after \<open>disableRegtest()\<close>;
  \<open>testnet.pubkeyhash\<close> is 0x1d25 throughout; and the descriptor is the same object,
  the one that the name testnet is indexed to, before and after the toggles.
\<close>

theorem testnet_port_toggle:
  "(EnableRegtest \<notin> set ops \<longrightarrow>
      read_property (run ops init_registry) testnet ''port'' = Num (number 18233)) \<and>
   read_property (enableRegtest (run ops init_registry)) testnet ''port'' = Num (number 18444) \<and>
   read_property (disableRegtest (run ops init_registry)) testnet ''port'' = Num (number 18233) \<and>
   read_property (run ops init_registry) testnet ''pubkeyhash'' = Num (number 0x1d25) \<and>
   get init_registry (AStr ''testnet'') NoKeys = testnet \<and>
   get (enableRegtest init_registry) (AStr ''testnet'') NoKeys = testnet \<and>
   get (disableRegtest (enableRegtest init_registry)) (AStr ''testnet'') NoKeys = testnet"
proof -
  let ?r = "run ops init_registry"
  have ti: "testnet_intact ?r"
    by (rule testnet_intact_run)
  have "EnableRegtest \<notin> set ops \<longrightarrow> read_property ?r testnet ''port'' = Num (number 18233)"
    using regtestEnabled_never_enabled [of ops] by (simp add: read_testnet_port [OF ti])
  moreover have "read_property (enableRegtest ?r) testnet ''port'' = Num (number 18444)"
    unfolding enableRegtest_def
    by (simp add: read_testnet_port [OF testnet_intact_assign [OF ti]]
        regtestEnabled_toggle [OF ti])
  moreover have "read_property (disableRegtest ?r) testnet ''port'' = Num (number 18233)"
    unfolding disableRegtest_def
    by (simp add: read_testnet_port [OF testnet_intact_assign [OF ti]]
        regtestEnabled_toggle [OF ti])
  moreover have "read_property ?r testnet ''pubkeyhash'' = Num (number 0x1d25)"
    by (simp add: read_testnet_pubkeyhash [OF ti])
  moreover have "get init_registry (AStr ''testnet'') NoKeys = testnet"
    by (simp add: get_def is_registered_def key_of_arg_def maps_read_def
        init_registry_value testnet_ref)
  moreover have "get (enableRegtest init_registry) (AStr ''testnet'') NoKeys = testnet"
    by (simp add: get_def is_registered_def key_of_arg_def maps_read_def enableRegtest_def
        init_registry_value testnet_ref)
  moreover have
    "get (disableRegtest (enableRegtest init_registry)) (AStr ''testnet'') NoKeys = testnet"
    by (simp add: get_def is_registered_def key_of_arg_def maps_read_def enableRegtest_def
        disableRegtest_def init_registry_value testnet_ref)
  ultimately show ?thesis by blast
qed

theorem testnet_port_toggle_witness:
  "EnableRegtest \<notin> set [Get (ANum (number 18233)) NoKeys, DisableRegtest] \<and>
   read_property (run [Get (ANum (number 18233)) NoKeys, DisableRegtest] init_registry) testnet ''port''
     = Num (number 18233) \<and>
   read_property (enableRegtest (run [Get (ANum (number 18233)) NoKeys, DisableRegtest] init_registry))
     testnet ''port'' = Num (number 18444)"
  using testnet_port_toggle [of "[Get (ANum (number 18233)) NoKeys, DisableRegtest]"]
  by simp

text \<open>
  C8. In every state that the exported operations reach, \<open>testnet.dnsSeeds\<close> is the
  one-element list of the testnet seed when \<open>regtestEnabled\<close> is not set, and the
  empty list when it is; \<open>enableRegtest\<close> sets it, \<open>disableRegtest\<close> clears it, and it
  is not set initially.
\<close>

theorem testnet_dnsSeeds_mode:
  "read_property (run ops init_registry) testnet ''dnsSeeds'' =
     (if truthy (read_property (run ops init_registry) testnet ''regtestEnabled'')
      then Array [] else Array [''dnsseedtestnet.zelcash.online'']) \<and>
   read_property init_registry testnet ''dnsSeeds'' = Array [''dnsseedtestnet.zelcash.online''] \<and>
   read_property (disableRegtest (run ops init_registry)) testnet ''dnsSeeds'' =
     Array [''dnsseedtestnet.zelcash.online''] \<and>
   read_property (enableRegtest (run ops init_registry)) testnet ''dnsSeeds'' = Array []"
proof -
  let ?r = "run ops init_registry"
  have ti: "testnet_intact ?r"
    by (rule testnet_intact_run)
  have "read_property ?r testnet ''dnsSeeds'' =
     (if truthy (read_property ?r testnet ''regtestEnabled'')
      then Array [] else Array [''dnsseedtestnet.zelcash.online''])"
    by (rule read_testnet_dnsSeeds [OF ti])
  moreover have
    "read_property init_registry testnet ''dnsSeeds'' = Array [''dnsseedtestnet.zelcash.online'']"
    by (simp add: read_testnet_dnsSeeds [OF testnet_intact_init] regtestEnabled_init)
  moreover have "read_property (disableRegtest ?r) testnet ''dnsSeeds'' =
     Array [''dnsseedtestnet.zelcash.online'']"
    unfolding disableRegtest_def
    by (simp add: read_testnet_dnsSeeds [OF testnet_intact_assign [OF ti]]
        regtestEnabled_toggle [OF ti])
  moreover have "read_property (enableRegtest ?r) testnet ''dnsSeeds'' = Array []"
    unfolding enableRegtest_def
    by (simp add: read_testnet_dnsSeeds [OF testnet_intact_assign [OF ti]]
        regtestEnabled_toggle [OF ti])
  ultimately show ?thesis by blast
qed

text \<open>
  C1, as the code has it. After initialisation and any sequence of the two toggles, the
  two ports 18233 and 18444 resolve to the testnet descriptor through the reverse index.
  The two magic values are held in the bundles as buffers, which the insertion loops
  skip as objects: \<open>get\<close> of either magic number is absent.
\<close>

theorem bundle_ports_indexed:
  "set ops \<subseteq> {EnableRegtest, DisableRegtest} \<Longrightarrow>
   get (run ops init_registry) (ANum (number 18233)) NoKeys = testnet \<and>
   get (run ops init_registry) (ANum (number 18444)) NoKeys = testnet \<and>
   get (run ops init_registry) (ANum (number 0xfa1af9bf)) NoKeys = Undefined \<and>
   get (run ops init_registry) (ANum (number 0xaae83f5f)) NoKeys = Undefined"
proof -
  assume "set ops \<subseteq> {EnableRegtest, DisableRegtest}"
  then have "networkMaps (run ops init_registry) = networkMaps init_registry"
    and "maps_proto (run ops init_registry) = None"
    using toggles_fold [of ops init_registry] by (simp_all add: run_def init_maps_proto)
  then have "get (run ops init_registry) (ANum n) NoKeys = get init_registry (ANum n) NoKeys"
    for n
    by (rule get_number_index) (simp_all add: init_maps_proto)
  then show ?thesis
    by (simp add: init_get_ports init_get_magics testnet_ref)
qed

theorem bundle_ports_indexed_witness:
  "set [EnableRegtest, DisableRegtest, EnableRegtest] \<subseteq> {EnableRegtest, DisableRegtest} \<and>
   get (run [EnableRegtest, DisableRegtest, EnableRegtest] init_registry) (ANum (number 18233)) NoKeys
     = testnet \<and>
   get (run [EnableRegtest, DisableRegtest, EnableRegtest] init_registry) (ANum (number 18444)) NoKeys
     = testnet"
proof -
  have h: "set [EnableRegtest, DisableRegtest, EnableRegtest] \<subseteq> {EnableRegtest, DisableRegtest}"
    by simp
  show ?thesis
    using h bundle_ports_indexed [OF h] by blast
qed

text \<open>
  C1 as the claim states it fails: the testnet magic 0xfa1af9bf is not in the reverse
  index, and \<open>get\<close> of it is not the testnet descriptor.
\<close>

theorem bundle_magic_counterexample:
  "get init_registry (ANum (number 0xfa1af9bf)) NoKeys \<noteq> testnet"
  by (simp add: init_get_magics testnet_ref)

text \<open>
  C3, at an input where the code departs from it. A specification named \<open>toString\<close> is
  added to the initial registry and the descriptor is removed again. It is no longer in
  the ordered list and no entry of the index targets it, but \<open>get\<close> of it looks
  \<open>networkMaps['toString']\<close> up and returns the function that a plain object inherits
  from \<open>Object.prototype\<close>, where the claim has absent.
\<close>

theorem add_remove_get_inherited:
  "fst (addNetwork (custom_spec\<lparr>name := Some ''toString''\<rparr>) init_registry) = Inr 2 \<and>
   2 \<notin> set (networks
     (removeNetwork 2 (snd (addNetwork (custom_spec\<lparr>name := Some ''toString''\<rparr>) init_registry)))) \<and>
   networkMaps
     (removeNetwork 2 (snd (addNetwork (custom_spec\<lparr>name := Some ''toString''\<rparr>) init_registry)))
     ''toString'' = None \<and>
   get (removeNetwork 2 (snd (addNetwork (custom_spec\<lparr>name := Some ''toString''\<rparr>) init_registry)))
     (ANetwork 2) NoKeys = Builtin ''toString'' \<and>
   Builtin ''toString'' \<noteq> Undefined"
proof -
  let ?s = "custom_spec\<lparr>name := Some ''toString''\<rparr>"
  let ?r1 = "snd (addNetwork ?s init_registry)"
  let ?r' = "removeNetwork 2 ?r1"
  have np: "name ?s \<noteq> Some ''__proto__''" and al: "alias_f ?s \<noteq> Some ''__proto__''"
    by (simp_all add: custom_spec_def)
  have a: "fst (addNetwork ?s init_registry) = Inr 2"
    using addNetwork_default(1) [OF init_maps_proto np al] by (simp add: init_next_ref)
  have "networks ?r1 = [0, Suc 0, 2]"
    using a by (simp add: addNetwork_networks init_networks init_next_ref)
  then have nets: "networks ?r' = [0, Suc 0]"
    by (simp add: removeNetwork_def splice_loop.simps)
  then have b: "2 \<notin> set (networks ?r')"
    by simp
  have proto: "maps_proto ?r' = None"
    by (simp add: addNetwork_default(2) [OF init_maps_proto np al])
  have "networkMaps ?r1 (to_key (Str ''toString'')) = Some (Ref 2)"
    using a
    by (intro addNetwork_written [of _ _ _ "''name''"])
       (simp_all add: build_network_keys build_network_reads of_str_def)
  then have c: "networkMaps ?r' ''toString'' = None"
    by (simp add: removeNetwork_def delete_entries_def)
  have key: "key_of_arg ?r' (ANetwork 2) = ''toString''"
    by (simp add: key_of_arg_def init_next_ref build_network_reads of_str_def)
  have "object_prototype ''toString'' = Builtin ''toString''"
    by (simp add: object_prototype_def object_prototype_names_def)
  with b key c have d: "get ?r' (ANetwork 2) NoKeys = Builtin ''toString''"
    by (simp add: get_def is_registered_def maps_read_default [OF proto])
  from a b c d show ?thesis
    by simp
qed

text \<open>
  C4. Take a state that the exported operations reach and add two descriptors, the
  pubkeyhash of the first being the scripthash of the second. Then \<open>get\<close> of that value
  without keys is the descriptor added last; \<open>get\<close> of it with the key \<open>pubkeyhash\<close>,
  and with the key \<open>scripthash\<close>, is the first descriptor of the ordered list whose field
  of that name is the value; and when no descriptor registered before has the value as
  its pubkeyhash, the keyed lookup gives the first of the two, so that the two ways of
  looking up differ.
\<close>

theorem collision_lookup_paths:
  assumes "pubkeyhash data1 = Some v" and "scripthash data2 = Some v"
    and "fst (addNetwork data1 (run ops init_registry)) = Inr d1"
    and "fst (addNetwork data2 (snd (addNetwork data1 (run ops init_registry)))) = Inr d2"
  shows "let r = run ops init_registry;
             r1 = snd (addNetwork data1 r);
             r2 = snd (addNetwork data2 r1)
         in get r2 (ANum v) NoKeys = Ref d2 \<and>
            (\<exists>i<length (networks r2).
               get r2 (ANum v) (KeyName ''pubkeyhash'') = Ref (networks r2 ! i) \<and>
               read_obj (heap r2 (networks r2 ! i)) ''pubkeyhash'' = Num v \<and>
               (\<forall>j<i. read_obj (heap r2 (networks r2 ! j)) ''pubkeyhash'' \<noteq> Num v)) \<and>
            (\<exists>i<length (networks r2).
               get r2 (ANum v) (KeyName ''scripthash'') = Ref (networks r2 ! i) \<and>
               read_obj (heap r2 (networks r2 ! i)) ''scripthash'' = Num v \<and>
               (\<forall>j<i. read_obj (heap r2 (networks r2 ! j)) ''scripthash'' \<noteq> Num v)) \<and>
            ((\<forall>n \<in> set (networks r). read_obj (heap r n) ''pubkeyhash'' \<noteq> Num v) \<longrightarrow>
               get r2 (ANum v) (KeyName ''pubkeyhash'') = Ref d1 \<and> d1 \<noteq> d2)"
proof -
  let ?r = "run ops init_registry"
  let ?r1 = "snd (addNetwork data1 ?r)"
  let ?r2 = "snd (addNetwork data2 ?r1)"
  have al: "allocated ?r"
    by (rule allocated_run)
  have d1: "d1 = next_ref ?r"
    using assms(3) by (rule addNetwork_returns)
  have d2: "d2 = Suc (next_ref ?r)"
    using addNetwork_returns [OF assms(4)] by simp
  have nets: "networks ?r2 = networks ?r @ [d1, d2]"
    using assms(3,4) d1 d2 by (simp add: addNetwork_networks)
  have h1: "heap ?r2 d1 = build_network data1" and h2: "heap ?r2 d2 = build_network data2"
    using d1 d2 by simp_all
  have old: "heap ?r2 n = heap ?r n" if "n \<in> set (networks ?r)" for n
    using al that by (auto simp: allocated_def)
  have "networkMaps ?r2 (to_key (Num v)) = Some (Ref d2)"
    using assms(2,4)
    by (intro addNetwork_written [of _ _ _ "''scripthash''"])
       (simp_all add: build_network_keys build_network_reads of_num_def string_of_int_not_proto)
  then have a: "get ?r2 (ANum v) NoKeys = Ref d2"
    by (intro get_number_written) simp
  have p1: "read_obj (heap ?r2 d1) ''pubkeyhash'' = Num v"
    using assms(1) by (simp only: h1) (simp add: build_network_reads of_num_def)
  have p2: "read_obj (heap ?r2 d2) ''scripthash'' = Num v"
    using assms(2) by (simp only: h2) (simp add: build_network_reads of_num_def)
  have b: "\<exists>i<length (networks ?r2).
      get ?r2 (ANum v) (KeyName ''pubkeyhash'') = Ref (networks ?r2 ! i) \<and>
      read_obj (heap ?r2 (networks ?r2 ! i)) ''pubkeyhash'' = Num v \<and>
      (\<forall>j<i. read_obj (heap ?r2 (networks ?r2 ! j)) ''pubkeyhash'' \<noteq> Num v)"
    by (rule get_number_first_match [OF _ _ p1]) (simp_all only: nets, simp_all)
  have c: "\<exists>i<length (networks ?r2).
      get ?r2 (ANum v) (KeyName ''scripthash'') = Ref (networks ?r2 ! i) \<and>
      read_obj (heap ?r2 (networks ?r2 ! i)) ''scripthash'' = Num v \<and>
      (\<forall>j<i. read_obj (heap ?r2 (networks ?r2 ! j)) ''scripthash'' \<noteq> Num v)"
    by (rule get_number_first_match [OF _ _ p2]) (simp_all only: nets, simp_all)
  have d: "get ?r2 (ANum v) (KeyName ''pubkeyhash'') = Ref d1"
    if none: "\<forall>n \<in> set (networks ?r). read_obj (heap ?r n) ''pubkeyhash'' \<noteq> Num v"
  proof -
    let ?P = "\<lambda>n. read_obj (heap ?r2 n) ''pubkeyhash'' = Num v"
    have np: "\<forall>n \<in> set (networks ?r). \<not> ?P n"
    proof
      fix n
      assume n: "n \<in> set (networks ?r)"
      with none have "read_obj (heap ?r n) ''pubkeyhash'' \<noteq> Num v"
        by (rule bspec)
      then show "\<not> ?P n"
        by (simp only: old [OF n] not_False_eq_True)
    qed
    have f: "find ?P (networks ?r @ d1 # [d2]) = Some d1"
      using find_append_fresh [of "networks ?r" ?P d1 "[d2]", OF np p1] .
    have n2: "networks ?r2 = networks ?r @ d1 # [d2]"
      using nets by simp
    have "get ?r2 (ANum v) (KeyName ''pubkeyhash'') =
        (case find ?P (networks ?r2) of Some n \<Rightarrow> Ref n | None \<Rightarrow> Undefined)"
      by (rule get_number_keyed) simp
    then show ?thesis
      unfolding n2 f by simp
  qed
  show ?thesis
    unfolding Let_def
  proof (intro conjI impI)
    show "get ?r2 (ANum v) NoKeys = Ref d2"
      by (rule a)
    show "\<exists>i<length (networks ?r2).
      get ?r2 (ANum v) (KeyName ''pubkeyhash'') = Ref (networks ?r2 ! i) \<and>
      read_obj (heap ?r2 (networks ?r2 ! i)) ''pubkeyhash'' = Num v \<and>
      (\<forall>j<i. read_obj (heap ?r2 (networks ?r2 ! j)) ''pubkeyhash'' \<noteq> Num v)"
      by (rule b)
    show "\<exists>i<length (networks ?r2).
      get ?r2 (ANum v) (KeyName ''scripthash'') = Ref (networks ?r2 ! i) \<and>
      read_obj (heap ?r2 (networks ?r2 ! i)) ''scripthash'' = Num v \<and>
      (\<forall>j<i. read_obj (heap ?r2 (networks ?r2 ! j)) ''scripthash'' \<noteq> Num v)"
      by (rule c)
  next
    assume "\<forall>n \<in> set (networks ?r). read_obj (heap ?r n) ''pubkeyhash'' \<noteq> Num v"
    then show "get ?r2 (ANum v) (KeyName ''pubkeyhash'') = Ref d1"
      by (rule d)
  next
    show "d1 \<noteq> d2"
      using d1 d2 by simp
  qed
qed

theorem collision_lookup_paths_witness:
  "pubkeyhash (custom_spec\<lparr>name := Some ''first'', pubkeyhash := Some (number 5)\<rparr>)
     = Some (number 5) \<and>
   scripthash (custom_spec\<lparr>name := Some ''second'', scripthash := Some (number 5)\<rparr>)
     = Some (number 5) \<and>
   fst (addNetwork (custom_spec\<lparr>name := Some ''first'', pubkeyhash := Some (number 5)\<rparr>)
          init_registry) = Inr 2 \<and>
   fst (addNetwork (custom_spec\<lparr>name := Some ''second'', scripthash := Some (number 5)\<rparr>)
          (snd (addNetwork (custom_spec\<lparr>name := Some ''first'', pubkeyhash := Some (number 5)\<rparr>)
             init_registry))) = Inr 3 \<and>
   read_obj (heap init_registry 0) ''pubkeyhash'' \<noteq> Num (number 5) \<and>
   read_obj (heap init_registry (Suc 0)) ''pubkeyhash'' \<noteq> Num (number 5) \<and>
   get (snd (addNetwork (custom_spec\<lparr>name := Some ''second'', scripthash := Some (number 5)\<rparr>)
          (snd (addNetwork (custom_spec\<lparr>name := Some ''first'', pubkeyhash := Some (number 5)\<rparr>)
             init_registry))))
     (ANum (number 5)) NoKeys = Ref 3 \<and>
   get (snd (addNetwork (custom_spec\<lparr>name := Some ''second'', scripthash := Some (number 5)\<rparr>)
          (snd (addNetwork (custom_spec\<lparr>name := Some ''first'', pubkeyhash := Some (number 5)\<rparr>)
             init_registry))))
     (ANum (number 5)) (KeyName ''pubkeyhash'') = Ref 2"
proof -
  let ?s1 = "custom_spec\<lparr>name := Some ''first'', pubkeyhash := Some (number 5)\<rparr>"
  let ?s2 = "custom_spec\<lparr>name := Some ''second'', scripthash := Some (number 5)\<rparr>"
  have a1: "pubkeyhash ?s1 = Some (number 5)" and a2: "scripthash ?s2 = Some (number 5)"
    by simp_all
  have n1: "name ?s1 \<noteq> Some ''__proto__''" "alias_f ?s1 \<noteq> Some ''__proto__''"
    and n2: "name ?s2 \<noteq> Some ''__proto__''" "alias_f ?s2 \<noteq> Some ''__proto__''"
    by (simp_all add: custom_spec_def)
  have p0: "maps_proto (run [] init_registry) = None"
    by (simp add: run_def init_maps_proto)
  have nr: "next_ref (run [] init_registry) = 2"
    by (simp add: run_def init_next_ref)
  have a3: "fst (addNetwork ?s1 (run [] init_registry)) = Inr 2"
    using addNetwork_default(1) [OF p0 n1] nr by simp
  have p1: "maps_proto (snd (addNetwork ?s1 (run [] init_registry))) = None"
    by (rule addNetwork_default(2) [OF p0 n1])
  have a4: "fst (addNetwork ?s2 (snd (addNetwork ?s1 (run [] init_registry)))) = Inr 3"
    using addNetwork_default(1) [OF p1 n2] nr by simp
  have r0: "read_obj (heap init_registry 0) ''pubkeyhash'' \<noteq> Num (number 5)"
    by (simp add: init_registry_value read_obj_def)
  have r1: "read_obj (heap init_registry (Suc 0)) ''pubkeyhash'' \<noteq> Num (number 5)"
    by (simp add: init_registry_value read_obj_def)
  have none: "\<forall>n \<in> set (networks (run [] init_registry)).
      read_obj (heap (run [] init_registry) n) ''pubkeyhash'' \<noteq> Num (number 5)"
    using r0 r1 by (simp add: run_def init_networks)
  note t = collision_lookup_paths [OF a1 a2 a3 a4, unfolded Let_def]
  have e: "run [] init_registry = init_registry"
    by (simp add: run_def)
  have g1: "get (snd (addNetwork ?s2 (snd (addNetwork ?s1 init_registry)))) (ANum (number 5)) NoKeys
      = Ref 3"
    using t [THEN conjunct1] by (simp only: e)
  have g2: "get (snd (addNetwork ?s2 (snd (addNetwork ?s1 init_registry)))) (ANum (number 5))
      (KeyName ''pubkeyhash'') = Ref 2"
    using t [THEN conjunct2, THEN conjunct2, THEN conjunct2, THEN mp, OF none, THEN conjunct1]
    by (simp only: e)
  from a1 a2 a3 a4 r0 r1 g1 g2 show ?thesis
    unfolding e by (intro conjI)
qed




text \<open>
  C9, at an input where the code departs from it. A descriptor named \<open>__proto__\<close> is
  added, then the addition of a descriptor named \<open>x\<close> with the alias \<open>alias\<close> throws
  after its name has been indexed. The descriptor that \<open>get('x')\<close> then returns is not
  in the ordered list, and \<open>remove\<close> of it deletes the entry \<open>x\<close> of the reverse index:
  the registry is not what it was.
\<close>

theorem remove_after_failed_add:
  "fst (addNetwork (custom_spec\<lparr>name := Some ''__proto__''\<rparr>) init_registry) = Inr 2 \<and>
   fst (addNetwork (custom_spec\<lparr>name := Some ''x'', alias_f := Some ''alias''\<rparr>)
          (snd (addNetwork (custom_spec\<lparr>name := Some ''__proto__''\<rparr>) init_registry)))
     = Inl TypeError \<and>
   get (run [Add (custom_spec\<lparr>name := Some ''__proto__''\<rparr>),
             Add (custom_spec\<lparr>name := Some ''x'', alias_f := Some ''alias''\<rparr>)] init_registry)
     (AStr ''x'') NoKeys = Ref 3 \<and>
   3 \<notin> set (networks
     (run [Add (custom_spec\<lparr>name := Some ''__proto__''\<rparr>),
           Add (custom_spec\<lparr>name := Some ''x'', alias_f := Some ''alias''\<rparr>)] init_registry)) \<and>
   networkMaps
     (run [Add (custom_spec\<lparr>name := Some ''__proto__''\<rparr>),
           Add (custom_spec\<lparr>name := Some ''x'', alias_f := Some ''alias''\<rparr>)] init_registry)
     ''x'' = Some (Ref 3) \<and>
   networkMaps
     (removeNetwork 3
        (run [Add (custom_spec\<lparr>name := Some ''__proto__''\<rparr>),
              Add (custom_spec\<lparr>name := Some ''x'', alias_f := Some ''alias''\<rparr>)] init_registry))
     ''x'' = None \<and>
   removeNetwork 3
     (run [Add (custom_spec\<lparr>name := Some ''__proto__''\<rparr>),
           Add (custom_spec\<lparr>name := Some ''x'', alias_f := Some ''alias''\<rparr>)] init_registry) \<noteq>
   run [Add (custom_spec\<lparr>name := Some ''__proto__''\<rparr>),
        Add (custom_spec\<lparr>name := Some ''x'', alias_f := Some ''alias''\<rparr>)] init_registry"
proof -
  let ?p = "custom_spec\<lparr>name := Some ''__proto__''\<rparr>"
  let ?q = "custom_spec\<lparr>name := Some ''x'', alias_f := Some ''alias''\<rparr>"
  let ?r = "snd (addNetwork ?q (snd (addNetwork ?p init_registry)))"
  have e: "run [Add ?p, Add ?q] init_registry = ?r"
    by (simp add: run_def)
  have a: "fst (addNetwork ?p init_registry) = Inr 2"
    by (simp add: add_proto_value numeral_2_eq_2)
  have b: "fst (addNetwork ?q (snd (addNetwork ?p init_registry))) = Inl TypeError"
    by (rule add_after_proto)
  have nets: "networks ?r = [0, Suc 0, Suc (Suc 0)]"
    by (rule add_after_proto)
  have x: "networkMaps ?r ''x'' = Some (Ref 3)"
    by (rule add_after_proto)
  have c: "get ?r (AStr ''x'') NoKeys = Ref 3"
    using x by (rule get_string_written)
  have d: "3 \<notin> set (networks ?r)"
    unfolding nets by simp
  have f: "networkMaps (removeNetwork 3 ?r) ''x'' = None"
    using x by (simp add: removeNetwork_def delete_entries_def)
  have g: "removeNetwork 3 ?r \<noteq> ?r"
  proof
    assume "removeNetwork 3 ?r = ?r"
    then have "networkMaps (removeNetwork 3 ?r) ''x'' = networkMaps ?r ''x''"
      by simp
    with f x show False
      by simp
  qed
  from a b c d x f g show ?thesis
    unfolding e by (intro conjI)
qed

end
